theory Spec2Isabelle
  imports Main
begin

section \<open>Python values, strings and dictionaries\<close>

text \<open>
  The scraper of \<^verbatim>\<open>googlescholar.py\<close> builds nested dictionaries and lists of text.
  Text is a \<^typ>\<open>string\<close> of bytes, the UTF-8 form of the Python text; a dictionary
  is an association list in insertion order with at most one pair per key, as a Python
  \<^verbatim>\<open>dict\<close> keeps it.
\<close>

datatype pyval =
    PNone
  | PStr string
  | PList "pyval list"
  | PDict "(string \<times> pyval) list"

type_synonym dict = "(string \<times> pyval) list"

datatype exn =
    RequestException
  | IndexError
  | AttributeError

text \<open>Truth value of a Python object, as \<^verbatim>\<open>if v\<close> tests it.\<close>

fun py_truthy :: "pyval \<Rightarrow> bool" where
  "py_truthy PNone = False"
| "py_truthy (PStr s) = (s \<noteq> [])"
| "py_truthy (PList xs) = (xs \<noteq> [])"
| "py_truthy (PDict d) = (d \<noteq> [])"

text \<open>\<^verbatim>\<open>d[k] = v\<close>: an existing key keeps its place, a new key goes last.\<close>

fun dict_set :: "string \<Rightarrow> pyval \<Rightarrow> dict \<Rightarrow> dict" where
  "dict_set k v [] = [(k, v)]"
| "dict_set k v ((k', v') # d) =
     (if k' = k then (k, v) # d else (k', v') # dict_set k v d)"

definition dict_get :: "dict \<Rightarrow> string \<Rightarrow> pyval option" where
  "dict_get d k = map_of d k"

text \<open>\<^verbatim>\<open>k in d\<close>.\<close>

definition dict_has :: "string \<Rightarrow> dict \<Rightarrow> bool" where
  "dict_has k d = (dict_get d k \<noteq> None)"

text \<open>\<^verbatim>\<open>{k: v for k, v in d.items() if v}\<close>.\<close>

definition remove_empty :: "dict \<Rightarrow> dict" where
  "remove_empty d = filter (\<lambda>(k, v). py_truthy v) d"

text \<open>\<^verbatim>\<open>{**a, **b}\<close>: the pairs of \<open>a\<close>, then each pair of \<open>b\<close> stored in turn.\<close>

definition dict_merge :: "dict \<Rightarrow> dict \<Rightarrow> dict" where
  "dict_merge a b = fold (\<lambda>(k, v). dict_set k v) b a"

subsection \<open>String methods\<close>

text \<open>
  Text is held in UTF-8, which every Python text without a lone surrogate has. A
  character is a byte that is no continuation byte, together with the continuation
  bytes (\<^verbatim>\<open>0x80\<close> to \<^verbatim>\<open>0xbf\<close>) that follow it; \<open>chars\<close> cuts a text into its
  characters.
\<close>

definition is_cont :: "char \<Rightarrow> bool" where
  "is_cont b = (let n = (of_char b :: int) in 128 \<le> n \<and> n < 192)"

fun chars :: "string \<Rightarrow> string list" where
  "chars [] = []"
| "chars (b # bs) =
     (case bs of
        [] \<Rightarrow> [[b]]
      | b' # _ \<Rightarrow>
          if is_cont b'
          then (case chars bs of
                  [] \<Rightarrow> [[b]]
                | g # gs \<Rightarrow> (b # g) # gs)
          else [b] # chars bs)"

text \<open>The code point of a character. Bytes that are no character of UTF-8 (a stray
  continuation byte, an overlong form, a surrogate, a value beyond \<^verbatim>\<open>U+10FFFF\<close>) stand
  for no Python text and count as the replacement character \<^verbatim>\<open>U+FFFD\<close>.\<close>

fun codepoint :: "string \<Rightarrow> int" where
  "codepoint [a] = (if (of_char a :: int) < 128 then of_char a else 0xFFFD)"
| "codepoint [a, b] =
     (if 194 \<le> (of_char a :: int) \<and> (of_char a :: int) < 224
      then (of_char a - 192) * 64 + (of_char b - 128)
      else 0xFFFD)"
| "codepoint [a, b, c] =
     (let v = (of_char a - 224) * 4096 + (of_char b - 128) * 64 + (of_char c - 128) :: int
      in if 224 \<le> (of_char a :: int) \<and> (of_char a :: int) < 240
            \<and> 0x800 \<le> v \<and> \<not> (0xD800 \<le> v \<and> v \<le> 0xDFFF)
         then v else 0xFFFD)"
| "codepoint [a, b, c, d] =
     (let v = (of_char a - 240) * 262144 + (of_char b - 128) * 4096
              + (of_char c - 128) * 64 + (of_char d - 128) :: int
      in if 240 \<le> (of_char a :: int) \<and> 0x10000 \<le> v \<and> v \<le> 0x10FFFF
         then v else 0xFFFD)"
| "codepoint _ = 0xFFFD"

text \<open>
  White space as \<^verbatim>\<open>str.isspace\<close>, \<^verbatim>\<open>str.strip()\<close> and \<^verbatim>\<open>str.split()\<close> see it:
  tab, line feed, vertical tab, form feed, carriage return, the four separators
  \<^verbatim>\<open>U+001C\<close> to \<^verbatim>\<open>U+001F\<close>, the space, and beyond ASCII \<^verbatim>\<open>U+0085\<close>, \<^verbatim>\<open>U+00A0\<close>,
  \<^verbatim>\<open>U+1680\<close>, \<^verbatim>\<open>U+2000\<close> to \<^verbatim>\<open>U+200A\<close>, \<^verbatim>\<open>U+2028\<close>, \<^verbatim>\<open>U+2029\<close>, \<^verbatim>\<open>U+202F\<close>,
  \<^verbatim>\<open>U+205F\<close> and \<^verbatim>\<open>U+3000\<close>.
\<close>

definition py_isspace :: "int \<Rightarrow> bool" where
  "py_isspace n =
     ((0x09 \<le> n \<and> n \<le> 0x0D) \<or> (0x1C \<le> n \<and> n \<le> 0x20)
      \<or> n = 0x85 \<or> n = 0xA0 \<or> n = 0x1680
      \<or> (0x2000 \<le> n \<and> n \<le> 0x200A)
      \<or> n = 0x2028 \<or> n = 0x2029 \<or> n = 0x202F \<or> n = 0x205F \<or> n = 0x3000)"

definition ws_char :: "string \<Rightarrow> bool" where
  "ws_char c = py_isspace (codepoint c)"

text \<open>\<^verbatim>\<open>s.strip()\<close>: the text without its leading and trailing white space.\<close>

definition strip_chars :: "string list \<Rightarrow> string list" where
  "strip_chars cs = rev (dropWhile ws_char (rev (dropWhile ws_char cs)))"

definition strip :: "string \<Rightarrow> string" where
  "strip s = concat (strip_chars (chars s))"

text \<open>\<^verbatim>\<open>s.split(sep)\<close> for a one-character separator: never an empty list.\<close>

fun split_on :: "char \<Rightarrow> string \<Rightarrow> string list" where
  "split_on sep [] = [[]]"
| "split_on sep (c # cs) =
     (if c = sep then [] # split_on sep cs
      else (case split_on sep cs of
              [] \<Rightarrow> [[c]]
            | w # ws \<Rightarrow> (c # w) # ws))"

text \<open>\<^verbatim>\<open>s.split()\<close>: the maximal runs of characters that are not white space.\<close>

fun words :: "string list \<Rightarrow> string list list" where
  "words [] = []"
| "words (c # cs) =
     (if ws_char c then words cs
      else (case cs of
              [] \<Rightarrow> [[c]]
            | d # _ \<Rightarrow>
                if ws_char d then [c] # words cs
                else (case words cs of
                        [] \<Rightarrow> [[c]]
                      | w # ws \<Rightarrow> (c # w) # ws)))"

definition split_ws :: "string \<Rightarrow> string list" where
  "split_ws s = map concat (words (chars s))"

text \<open>\<^verbatim>\<open>xs[-1]\<close>: raises \<^verbatim>\<open>IndexError\<close> on the empty list.\<close>

definition last_item :: "'a list \<Rightarrow> exn + 'a" where
  "last_item xs = (case xs of [] \<Rightarrow> Inl IndexError | _ \<Rightarrow> Inr (last xs))"

text \<open>
  \<^verbatim>\<open>urllib.parse.quote\<close> with its default \<^verbatim>\<open>safe='/'\<close>: letters, digits and
  \<^verbatim>\<open>_.-~/\<close> stay, every other byte becomes \<^verbatim>\<open>%XX\<close>.
\<close>

definition hex_digit :: "nat \<Rightarrow> char" where
  "hex_digit n = (''0123456789ABCDEF'' ! (n mod 16))"

definition quote_safe :: "char \<Rightarrow> bool" where
  "quote_safe c =
     (let n = (of_char c :: nat) in
        (65 \<le> n \<and> n \<le> 90) \<or> (97 \<le> n \<and> n \<le> 122) \<or> (48 \<le> n \<and> n \<le> 57)
        \<or> c \<in> set ''_.-~/'')"

definition quote :: "string \<Rightarrow> string" where
  "quote s = concat (map (\<lambda>c. if quote_safe c then [c]
                               else [CHR ''%'', hex_digit (of_char c div 16), hex_digit (of_char c)]) s)"

section \<open>Parsed markup\<close>

text \<open>
  A \<^verbatim>\<open>bs4\<close> element, seen through the calls the scraper makes on it: the strings
  below it in document order, its attributes, and what \<^verbatim>\<open>select\<close>,
  \<^verbatim>\<open>find\<close> and \<^verbatim>\<open>find_next_sibling\<close> answer for each argument. An element is
  always true in a condition, so \<^verbatim>\<open>if el:\<close> tests that a match was found.
\<close>

datatype tag = Tag
  (tag_strings: "string list")
  (tag_attrs: "(string \<times> string) list")
  (tag_select: "(string \<times> tag list) list")
  (tag_find: "(string \<times> tag) list")
  (tag_next_sibling: "(string \<times> tag) list")

definition select :: "tag \<Rightarrow> string \<Rightarrow> tag list" where
  "select el sel = (case map_of (tag_select el) sel of None \<Rightarrow> [] | Some ts \<Rightarrow> ts)"

definition select_one :: "tag \<Rightarrow> string \<Rightarrow> tag option" where
  "select_one el sel = (case select el sel of [] \<Rightarrow> None | t # _ \<Rightarrow> Some t)"

definition find_tag :: "tag \<Rightarrow> string \<Rightarrow> tag option" where
  "find_tag el name = map_of (tag_find el) name"

definition find_next_sibling :: "tag \<Rightarrow> string \<Rightarrow> tag option" where
  "find_next_sibling el name = map_of (tag_next_sibling el) name"

text \<open>\<^verbatim>\<open>el.get_text()\<close> joins the strings; with \<^verbatim>\<open>strip=True\<close> each string is
  stripped first and the empty ones are left out.\<close>

definition get_text :: "tag \<Rightarrow> string" where
  "get_text el = concat (tag_strings el)"

definition get_text_strip :: "tag \<Rightarrow> string" where
  "get_text_strip el = concat (filter (\<lambda>s. s \<noteq> []) (map strip (tag_strings el)))"

text \<open>\<^verbatim>\<open>el.get(name, default)\<close>.\<close>

definition attr_get :: "tag \<Rightarrow> string \<Rightarrow> string \<Rightarrow> string" where
  "attr_get el name dflt = (case map_of (tag_attrs el) name of None \<Rightarrow> dflt | Some v \<Rightarrow> v)"

section \<open>The network\<close>

text \<open>
  \<^verbatim>\<open>requests.get\<close> followed by \<^verbatim>\<open>BeautifulSoup(..., 'html.parser')\<close>: given the
  events of the run so far and the address, the call raises or yields the parsed page.
  The run records each request and each \<^verbatim>\<open>time.sleep\<close>; printing is left out.
\<close>

datatype event = Get string | Sleep nat

type_synonym trace = "event list"

type_synonym net = "trace \<Rightarrow> string \<Rightarrow> exn + tag"


section \<open>Search Resolver: \<^verbatim>\<open>get_scholar_data\<close>\<close>

text \<open>
  The body of the inner \<^verbatim>\<open>try\<close>, for one \<^verbatim>\<open>.gs_r\<close> block, is a sequence of
  commented groups of statements; each group is a function from the \<^verbatim>\<open>result\<close>
  before it to the \<^verbatim>\<open>result\<close> after it.
\<close>

text \<open>\<^verbatim>\<open># Get title and title link\<close>\<close>

definition result_title :: "tag \<Rightarrow> dict \<Rightarrow> dict" where
  "result_title el result =
     (case select_one el ''.gs_rt'' of
        None \<Rightarrow> result
      | Some title_el \<Rightarrow>
          (let result = dict_set ''title'' (PStr (get_text title_el)) result
           in case find_tag title_el ''a'' of
                None \<Rightarrow> result
              | Some a_tag \<Rightarrow>
                  (case map_of (tag_attrs a_tag) ''href'' of
                     None \<Rightarrow> result
                   | Some href \<Rightarrow>
                       dict_set ''id'' (PStr (attr_get a_tag ''id'' []))
                         (dict_set ''title_link'' (PStr href) result))))"

text \<open>\<^verbatim>\<open># Displayed link and snippet\<close>\<close>

definition result_displayed_link :: "tag \<Rightarrow> dict \<Rightarrow> dict" where
  "result_displayed_link el result =
     (case select_one el ''.gs_a'' of
        None \<Rightarrow> result
      | Some displayed_link \<Rightarrow>
          dict_set ''displayed_link'' (PStr (get_text displayed_link)) result)"

definition result_snippet :: "tag \<Rightarrow> dict \<Rightarrow> dict" where
  "result_snippet el result =
     (case select_one el ''.gs_rs'' of
        None \<Rightarrow> result
      | Some snippet \<Rightarrow> dict_set ''snippet'' (PStr (get_text_strip snippet)) result)"

text \<open>\<^verbatim>\<open># Cited by info\<close>\<close>

definition result_cited :: "tag \<Rightarrow> dict \<Rightarrow> dict" where
  "result_cited el result =
     (case select_one el ''.gs_nph+ a'' of
        None \<Rightarrow> result
      | Some cited_a \<Rightarrow>
          dict_set ''cited_link''
            (PStr (''https://scholar.google.com'' @ attr_get cited_a ''href'' []))
            (dict_set ''cited_by_count'' (PStr (get_text cited_a)) result))"

text \<open>\<^verbatim>\<open># Versions info (if available)\<close>\<close>

definition result_versions :: "tag \<Rightarrow> dict \<Rightarrow> dict" where
  "result_versions el result =
     (case select el ''a ~ a'' of
        [] \<Rightarrow> result
      | v0 # _ \<Rightarrow>
          (case find_next_sibling v0 ''a'' of
             None \<Rightarrow> result
           | Some ver_el \<Rightarrow>
               dict_set ''versions_link''
                 (PStr (''https://scholar.google.com'' @ attr_get ver_el ''href'' []))
                 (dict_set ''versions_count'' (PStr (get_text ver_el)) result)))"

text \<open>None of these calls raises on a parsed page, so the block always yields a record.\<close>

definition scholar_result :: "tag \<Rightarrow> exn + dict" where
  "scholar_result el =
     (let result = [];
          result = result_title el result;
          result = result_displayed_link el result;
          result = result_snippet el result;
          result = result_cited el result;
          result = result_versions el result
      in Inr (remove_empty result))"

text \<open>The loop over the blocks: a block whose parsing raises is reported and skipped.\<close>

fun scholar_results :: "tag list \<Rightarrow> dict list" where
  "scholar_results [] = []"
| "scholar_results (el # els) =
     (case scholar_result el of
        Inl e \<Rightarrow> scholar_results els
      | Inr result \<Rightarrow> result # scholar_results els)"

definition scholar_url :: "string \<Rightarrow> string" where
  "scholar_url query = ''https://www.google.com/scholar?q='' @ quote query"

definition get_scholar_data :: "net \<Rightarrow> trace \<Rightarrow> string \<Rightarrow> dict list \<times> trace" where
  "get_scholar_data nw tr query =
     (let url = scholar_url query
      in case nw tr url of
           Inl e \<Rightarrow> ([], tr @ [Get url])
         | Inr soup \<Rightarrow> (scholar_results (select soup ''.gs_r''), tr @ [Get url]))"

section \<open>Author Resolver: \<^verbatim>\<open>get_scholar_profiles\<close>\<close>

text \<open>The statements of the loop body, for one \<^verbatim>\<open>.gsc_1usr\<close> block, group by group.\<close>

definition profile_name :: "tag \<Rightarrow> dict \<Rightarrow> dict" where
  "profile_name el profile =
     (case select_one el ''.gs_ai_name'' of
        None \<Rightarrow> profile
      | Some name_el \<Rightarrow>
          (let profile = dict_set ''name'' (PStr (get_text name_el)) profile
           in case find_tag name_el ''a'' of
                None \<Rightarrow> profile
              | Some a_tag \<Rightarrow>
                  (case map_of (tag_attrs a_tag) ''href'' of
                     None \<Rightarrow> profile
                   | Some href \<Rightarrow>
                       dict_set ''name_link''
                         (PStr (''https://scholar.google.com'' @ href)) profile)))"

definition profile_position :: "tag \<Rightarrow> dict \<Rightarrow> dict" where
  "profile_position el profile =
     (case select_one el ''.gs_ai_aff'' of
        None \<Rightarrow> profile
      | Some pos_el \<Rightarrow> dict_set ''position'' (PStr (get_text pos_el)) profile)"

definition profile_email :: "tag \<Rightarrow> dict \<Rightarrow> dict" where
  "profile_email el profile =
     (case select_one el ''.gs_ai_eml'' of
        None \<Rightarrow> profile
      | Some email_el \<Rightarrow> dict_set ''email'' (PStr (get_text email_el)) profile)"

definition profile_departments :: "tag \<Rightarrow> dict \<Rightarrow> dict" where
  "profile_departments el profile =
     (case select_one el ''.gs_ai_int'' of
        None \<Rightarrow> profile
      | Some dept_el \<Rightarrow> dict_set ''departments'' (PStr (get_text dept_el)) profile)"

text \<open>\<^verbatim>\<open>cited_el.get_text().split()[-1]\<close> raises \<^verbatim>\<open>IndexError\<close> when the text has
  no word.\<close>

definition profile_cited :: "tag \<Rightarrow> dict \<Rightarrow> exn + dict" where
  "profile_cited el profile =
     (case select_one el ''.gs_ai_cby'' of
        None \<Rightarrow> Inr profile
      | Some cited_el \<Rightarrow>
          (case last_item (split_ws (get_text cited_el)) of
             Inl e \<Rightarrow> Inl e
           | Inr w \<Rightarrow> Inr (dict_set ''cited_by_count'' (PStr w) profile)))"

definition scholar_profile :: "tag \<Rightarrow> exn + dict" where
  "scholar_profile el =
     (let profile = [];
          profile = profile_name el profile;
          profile = profile_position el profile;
          profile = profile_email el profile;
          profile = profile_departments el profile
      in case profile_cited el profile of
           Inl e \<Rightarrow> Inl e
         | Inr profile \<Rightarrow> Inr (remove_empty profile))"

text \<open>The loop has no handler of its own: the first block that raises ends it.\<close>

fun scholar_profiles :: "tag list \<Rightarrow> exn + dict list" where
  "scholar_profiles [] = Inr []"
| "scholar_profiles (el # els) =
     (case scholar_profile el of
        Inl e \<Rightarrow> Inl e
      | Inr profile \<Rightarrow>
          (case scholar_profiles els of
             Inl e \<Rightarrow> Inl e
           | Inr profiles \<Rightarrow> Inr (profile # profiles)))"

definition profiles_url :: "string \<Rightarrow> string" where
  "profiles_url author_name =
     ''https://scholar.google.com/citations?hl=en&view_op=search_authors&mauthors=''
       @ quote author_name"

text \<open>The handler of the function catches what the loop raises and returns the empty list.\<close>

definition get_scholar_profiles :: "net \<Rightarrow> trace \<Rightarrow> string \<Rightarrow> dict list \<times> trace" where
  "get_scholar_profiles nw tr author_name =
     (let url = profiles_url author_name
      in case nw tr url of
           Inl e \<Rightarrow> ([], tr @ [Get url])
         | Inr soup \<Rightarrow>
             (case scholar_profiles (select soup ''.gsc_1usr'') of
                Inl e \<Rightarrow> ([], tr @ [Get url])
              | Inr profiles \<Rightarrow> (profiles, tr @ [Get url])))"

section \<open>Profile Resolver: \<^verbatim>\<open>get_author_profile_data\<close>\<close>

text \<open>The body of the loop over \<^verbatim>\<open>#gsc_a_b .gsc_a_t\<close>, for one article.\<close>

definition article_title :: "tag \<Rightarrow> dict \<Rightarrow> dict" where
  "article_title el article =
     (case select_one el ''.gsc_a_at'' of
        None \<Rightarrow> article
      | Some title_el \<Rightarrow>
          (let article = dict_set ''title'' (PStr (get_text title_el)) article;
               article_link = attr_get title_el ''href'' []
           in if article_link \<noteq> []
              then dict_set ''link'' (PStr (''https://scholar.google.com'' @ article_link)) article
              else article))"

definition article_authors :: "tag \<Rightarrow> dict \<Rightarrow> dict" where
  "article_authors el article =
     (case select_one el ''.gs_gray'' of
        None \<Rightarrow> article
      | Some authors_el \<Rightarrow> dict_set ''authors'' (PStr (get_text authors_el)) article)"

definition article_publication :: "tag \<Rightarrow> dict \<Rightarrow> dict" where
  "article_publication el article =
     (let pubs = select el ''.gs_gray''
      in if length pubs > 1
         then dict_set ''publication'' (PStr (get_text (pubs ! 1))) article
         else article)"

definition article_entry :: "tag \<Rightarrow> dict" where
  "article_entry el =
     (let article = [];
          article = article_title el article;
          article = article_authors el article;
          article = article_publication el article
      in remove_empty article)"

text \<open>One row of the citation table: \<^verbatim>\<open>{key: {"all": text}}\<close> when the cell was found,
  the empty dictionary otherwise.\<close>

definition metric_row :: "tag \<Rightarrow> string \<Rightarrow> string \<Rightarrow> pyval" where
  "metric_row soup sel key =
     (case select_one soup sel of
        None \<Rightarrow> PDict []
      | Some cell \<Rightarrow> PDict (dict_set key (PDict [(''all'', PStr (get_text cell))]) []))"

text \<open>The three rows appended in the inner \<^verbatim>\<open>try\<close>; none of its calls raises on a
  parsed page, so its handler is never entered.\<close>

definition citation_table :: "tag \<Rightarrow> pyval list" where
  "citation_table soup =
     [metric_row soup ''tr:nth-child(1) .gsc_rsb_std'' ''citations'',
      metric_row soup ''tr:nth-child(2) .gsc_rsb_std'' ''h_index'',
      metric_row soup ''tr:nth-child(3) .gsc_rsb_std'' ''i_index'']"

text \<open>\<^verbatim>\<open># Basic info extraction\<close>: nothing removes an empty text here.\<close>

definition basic_info :: "tag \<Rightarrow> dict \<Rightarrow> dict" where
  "basic_info soup profile_data =
     (let profile_data =
            (case select_one soup ''#gsc_prf_in'' of
               None \<Rightarrow> profile_data
             | Some name_el \<Rightarrow> dict_set ''name'' (PStr (get_text name_el)) profile_data);
          profile_data =
            (case select_one soup ''#gsc_prf_inw+ .gsc_prf_il'' of
               None \<Rightarrow> profile_data
             | Some pos_el \<Rightarrow> dict_set ''position'' (PStr (get_text pos_el)) profile_data);
          profile_data =
            (case select_one soup ''#gsc_prf_ivh'' of
               None \<Rightarrow> profile_data
             | Some email_el \<Rightarrow> dict_set ''email'' (PStr (get_text email_el)) profile_data);
          profile_data =
            (case select_one soup ''#gsc_prf_int'' of
               None \<Rightarrow> profile_data
             | Some dept_el \<Rightarrow> dict_set ''departments'' (PStr (get_text dept_el)) profile_data)
      in profile_data)"

text \<open>What the function returns for a page that was fetched.\<close>

definition profile_page :: "tag \<Rightarrow> dict" where
  "profile_page soup =
     (let profile_data = [];
          profile_data = basic_info soup profile_data;
          articles = map (\<lambda>el. PDict (article_entry el)) (select soup ''#gsc_a_b .gsc_a_t'');
          profile_data = dict_set ''articles'' (PList articles) profile_data;
          profile_data = dict_set ''citation_metrics'' (PList (citation_table soup)) profile_data
      in profile_data)"

text \<open>The address is whatever the candidate holds under \<^verbatim>\<open>name_link\<close>; for a value
  that is no string \<^verbatim>\<open>requests.get\<close> raises inside the \<^verbatim>\<open>try\<close> before any request.\<close>

definition get_author_profile_data :: "net \<Rightarrow> trace \<Rightarrow> pyval \<Rightarrow> dict \<times> trace" where
  "get_author_profile_data nw tr profile_url =
     (case profile_url of
        PStr url \<Rightarrow>
          (case nw tr url of
             Inl e \<Rightarrow> ([], tr @ [Get url])
           | Inr soup \<Rightarrow> (profile_page soup, tr @ [Get url]))
      | _ \<Rightarrow> ([], tr))"

section \<open>Pipeline Orchestrator: \<^verbatim>\<open>main\<close>\<close>

text \<open>A paper as \<^verbatim>\<open>arxiv.py\<close> writes it: every field is a string or \<^verbatim>\<open>None\<close>.\<close>

type_synonym paper = "(string \<times> string option) list"

record author_entry =
  author_name :: string
  profiles :: "dict list"

record paper_entry =
  arxiv :: paper
  scholar_search :: "dict list"
  authors_details :: "author_entry list"

text \<open>\<^verbatim>\<open>paper.get(key, default)\<close>; the result is a string or \<^verbatim>\<open>None\<close>.\<close>

definition paper_get :: "paper \<Rightarrow> string \<Rightarrow> string \<Rightarrow> string option" where
  "paper_get paper key dflt = (case map_of paper key of None \<Rightarrow> Some dflt | Some v \<Rightarrow> v)"

text \<open>How an f-string prints the value.\<close>

definition py_str :: "string option \<Rightarrow> string" where
  "py_str v = (case v of None \<Rightarrow> ''None'' | Some s \<Rightarrow> s)"

definition title_query :: "paper \<Rightarrow> string" where
  "title_query paper = [CHR 0x22] @ py_str (paper_get paper ''title'' []) @ [CHR 0x22]"

text \<open>\<^verbatim>\<open>[a.strip() for a in authors.split(",") if a.strip()]\<close>.\<close>

definition authors_list :: "string \<Rightarrow> string list" where
  "authors_list authors =
     map strip (filter (\<lambda>a. strip a \<noteq> []) (split_on CHR '','' authors))"

text \<open>\<^verbatim>\<open>for profile in profiles\<close>: only a candidate with a \<^verbatim>\<open>name_link\<close> is fetched,
  merged and appended.\<close>

fun detailed_profiles :: "net \<Rightarrow> trace \<Rightarrow> dict list \<Rightarrow> dict list \<times> trace" where
  "detailed_profiles nw tr [] = ([], tr)"
| "detailed_profiles nw tr (profile # rest) =
     (case dict_get profile ''name_link'' of
        None \<Rightarrow> detailed_profiles nw tr rest
      | Some profile_url \<Rightarrow>
          (let (profile_data, tr1) = get_author_profile_data nw tr profile_url;
               combined_profile = dict_merge profile profile_data;
               (ds, tr2) = detailed_profiles nw (tr1 @ [Sleep 1]) rest
           in (combined_profile # ds, tr2)))"

text \<open>\<^verbatim>\<open>for author in authors_list\<close>.\<close>

fun authors_loop :: "net \<Rightarrow> trace \<Rightarrow> string list \<Rightarrow> author_entry list \<times> trace" where
  "authors_loop nw tr [] = ([], tr)"
| "authors_loop nw tr (author # rest) =
     (let (candidates, tr1) = get_scholar_profiles nw tr author;
          (ds, tr2) = detailed_profiles nw tr1 candidates;
          author_entry = \<lparr>author_name = author, profiles = ds\<rparr>;
          (es, tr3) = authors_loop nw (tr2 @ [Sleep 1]) rest
      in (author_entry # es, tr3))"

text \<open>The body of \<^verbatim>\<open>for paper in arxiv_papers\<close>. Splitting an author list that is
  \<^verbatim>\<open>None\<close> raises \<^verbatim>\<open>AttributeError\<close>, which nothing in \<^verbatim>\<open>main\<close> catches.\<close>

definition process_paper :: "net \<Rightarrow> trace \<Rightarrow> paper \<Rightarrow> exn + paper_entry \<times> trace" where
  "process_paper nw tr paper =
     (let (scholar_results, tr1) = get_scholar_data nw tr (title_query paper)
      in case paper_get paper ''authors'' [] of
           None \<Rightarrow> Inl AttributeError
         | Some authors \<Rightarrow>
             (let (ads, tr2) = authors_loop nw tr1 (authors_list authors)
              in Inr (\<lparr>arxiv = paper, scholar_search = scholar_results, authors_details = ads\<rparr>,
                      tr2)))"

fun final_database :: "net \<Rightarrow> trace \<Rightarrow> paper list \<Rightarrow> exn + paper_entry list \<times> trace" where
  "final_database nw tr [] = Inr ([], tr)"
| "final_database nw tr (paper # rest) =
     (case process_paper nw tr paper of
        Inl e \<Rightarrow> Inl e
      | Inr (paper_entry, tr1) \<Rightarrow>
          (case final_database nw (tr1 @ [Sleep 2]) rest of
             Inl e \<Rightarrow> Inl e
           | Inr (es, tr2) \<Rightarrow> Inr (paper_entry # es, tr2)))"

text \<open>\<^verbatim>\<open>main\<close>, given what loading the input file produced: a failed load ends the run
  with nothing to write; otherwise the finished database goes to \<^verbatim>\<open>json.dump\<close>.\<close>

definition main :: "net \<Rightarrow> (exn + paper list) \<Rightarrow> exn + paper_entry list option \<times> trace" where
  "main nw loaded =
     (case loaded of
        Inl e \<Rightarrow> Inr (None, [])
      | Inr arxiv_papers \<Rightarrow>
          (case final_database nw [] arxiv_papers of
             Inl e \<Rightarrow> Inl e
           | Inr (db, tr) \<Rightarrow> Inr (Some db, tr)))"

section \<open>Reference functions for the statements\<close>

text \<open>\<^verbatim>\<open>sep.join(parts)\<close>, the inverse of splitting.\<close>

fun join_on :: "char \<Rightarrow> string list \<Rightarrow> string" where
  "join_on sep [] = []"
| "join_on sep [w] = w"
| "join_on sep (w # ws) = w @ sep # join_on sep ws"

text \<open>The spec's wording of step 2: split on the delimiter, trim each token, discard the
  empty tokens.\<close>

definition spec_author_tokens :: "string \<Rightarrow> string list" where
  "spec_author_tokens authors =
     filter (\<lambda>t. t \<noteq> []) (map strip (split_on CHR '','' authors))"

text \<open>The addresses requested in a run, in order.\<close>

definition requests :: "trace \<Rightarrow> string list" where
  "requests tr = concat (map (\<lambda>ev. case ev of Get url \<Rightarrow> [url] | Sleep n \<Rightarrow> []) tr)"

text \<open>A dictionary all of whose values are strings.\<close>

fun is_str :: "pyval \<Rightarrow> bool" where
  "is_str (PStr s) = True"
| "is_str v = False"

definition str_valued :: "dict \<Rightarrow> bool" where
  "str_valued d = list_all (\<lambda>(k, v). is_str v) d"

text \<open>The fields of a search result and of a profile candidate, each with the selector
  its group of statements starts from.\<close>

definition search_rules :: "(string \<times> string) list" where
  "search_rules =
     [(''title'', ''.gs_rt''), (''title_link'', ''.gs_rt''), (''id'', ''.gs_rt''),
      (''displayed_link'', ''.gs_a''), (''snippet'', ''.gs_rs''),
      (''cited_by_count'', ''.gs_nph+ a''), (''cited_link'', ''.gs_nph+ a''),
      (''versions_count'', ''a ~ a''), (''versions_link'', ''a ~ a'')]"

definition profile_rules :: "(string \<times> string) list" where
  "profile_rules =
     [(''name'', ''.gs_ai_name''), (''name_link'', ''.gs_ai_name''),
      (''position'', ''.gs_ai_aff''), (''email'', ''.gs_ai_eml''),
      (''departments'', ''.gs_ai_int''), (''cited_by_count'', ''.gs_ai_cby'')]"

text \<open>The value under a key after the filter.\<close>

definition kept :: "pyval option \<Rightarrow> pyval option" where
  "kept x = (case x of None \<Rightarrow> None | Some v \<Rightarrow> if py_truthy v then Some v else None)"

section \<open>Dictionaries: lookup after update, filtering and merging\<close>

lemma map_of_dict_set: "map_of (dict_set k v d) = (map_of d)(k \<mapsto> v)"
  by (induction d) (auto simp: fun_eq_iff)

lemma keys_dict_set: "set (map fst (dict_set k v d)) = insert k (set (map fst d))"
proof (induction d)
  case Nil
  then show ?case by simp
next
  case (Cons p d)
  then show ?case by (cases p) (simp add: insert_commute)
qed

lemma distinct_dict_set: "distinct (map fst d) \<Longrightarrow> distinct (map fst (dict_set k v d))"
proof (induction d)
  case Nil
  then show ?case by simp
next
  case (Cons p d)
  then show ?case using keys_dict_set [of k v d] by (cases p) auto
qed

lemma values_dict_set: "set (dict_set k v d) \<subseteq> insert (k, v) (set d)"
  by (induction d) (auto split: if_splits)

lemma map_of_remove_empty:
  "distinct (map fst d) \<Longrightarrow>
   map_of (remove_empty d) k =
     (case map_of d k of None \<Rightarrow> None | Some v \<Rightarrow> if py_truthy v then Some v else None)"
  unfolding remove_empty_def
proof (induction d)
  case Nil
  then show ?case by simp
next
  case (Cons p d)
  obtain k' v' where p: "p = (k', v')" by (cases p)
  from Cons.prems p have nk: "map_of d k' = None" and d: "distinct (map fst d)"
    by (auto simp: map_of_eq_None_iff)
  show ?case using Cons.IH [OF d] nk by (auto simp: p split: option.splits)
qed

lemma distinct_remove_empty: "distinct (map fst d) \<Longrightarrow> distinct (map fst (remove_empty d))"
  unfolding remove_empty_def by (simp add: distinct_map_filter)

lemma remove_empty_truthy: "(k, v) \<in> set (remove_empty d) \<Longrightarrow> py_truthy v"
  by (auto simp: remove_empty_def)

lemma map_of_dict_merge:
  "distinct (map fst b) \<Longrightarrow>
   map_of (dict_merge a b) k = (case map_of b k of Some v \<Rightarrow> Some v | None \<Rightarrow> map_of a k)"
  unfolding dict_merge_def
proof (induction b arbitrary: a)
  case Nil
  then show ?case by simp
next
  case (Cons p b)
  obtain k' v' where p: "p = (k', v')" by (cases p)
  from Cons.prems p have nk: "map_of b k' = None" and d: "distinct (map fst b)"
    by (auto simp: map_of_eq_None_iff)
  show ?case using Cons.IH [OF d, of "dict_set k' v' a"] nk
    by (simp add: p map_of_dict_set split: option.splits)
qed

lemma keys_dict_merge: "set (map fst (dict_merge a b)) = set (map fst a) \<union> set (map fst b)"
  unfolding dict_merge_def
proof (induction b arbitrary: a)
  case Nil
  then show ?case by simp
next
  case (Cons p b)
  show ?case using Cons.IH [of "dict_set (fst p) (snd p) a"] keys_dict_set [of "fst p" "snd p" a]
    by (cases p) auto
qed

lemma distinct_dict_merge: "distinct (map fst a) \<Longrightarrow> distinct (map fst (dict_merge a b))"
  unfolding dict_merge_def
  by (induction b arbitrary: a) (auto simp: distinct_dict_set)

lemma dict_merge_empty: "dict_merge a [] = a"
  by (simp add: dict_merge_def)

lemma dict_has_iff: "dict_has k d \<longleftrightarrow> k \<in> set (map fst d)"
  by (auto simp: dict_has_def dict_get_def map_of_eq_None_iff)

section \<open>Splitting text\<close>

lemma split_on_nonempty: "split_on sep s \<noteq> []"
  by (induction s) (auto split: list.splits)

lemma split_on_join: "join_on sep (split_on sep s) = s"
proof (induction s)
  case Nil
  then show ?case by simp
next
  case (Cons c s)
  obtain w ws where ws: "split_on sep s = w # ws"
    using split_on_nonempty [of sep s] by (cases "split_on sep s") auto
  with Cons show ?case by (cases ws) auto
qed

lemma split_on_no_sep: "t \<in> set (split_on sep s) \<Longrightarrow> sep \<notin> set t"
proof (induction s arbitrary: t)
  case Nil
  then show ?case by simp
next
  case (Cons c s)
  obtain w ws where ws: "split_on sep s = w # ws"
    using split_on_nonempty [of sep s] by (cases "split_on sep s") auto
  with Cons show ?case by (auto split: if_splits)
qed

text \<open>Cutting a text into characters loses nothing, and no character is empty.\<close>

lemma chars_concat: "concat (chars s) = s"
proof (induction s rule: chars.induct)
  case 1
  then show ?case by simp
next
  case (2 b bs)
  show ?case
  proof (cases bs)
    case Nil
    then show ?thesis by simp
  next
    case (Cons b' bs')
    show ?thesis
    proof (cases "is_cont b'")
      case True
      from "2.IH"(1) [OF Cons True] have ih: "concat (chars bs) = bs" .
      show ?thesis
      proof (cases "chars bs")
        case Nil
        with ih Cons show ?thesis by simp
      next
        case (Cons g gs)
        with ih \<open>bs = b' # bs'\<close> True show ?thesis by simp
      qed
    next
      case False
      from "2.IH"(2) [OF Cons False] have "concat (chars bs) = bs" .
      with Cons False show ?thesis by simp
    qed
  qed
qed

lemma chars_nonempty: "g \<in> set (chars s) \<Longrightarrow> g \<noteq> []"
proof (induction s arbitrary: g rule: chars.induct)
  case 1
  then show ?case by simp
next
  case (2 b bs)
  show ?case
  proof (cases bs)
    case Nil
    with "2.prems" show ?thesis by simp
  next
    case (Cons b' bs')
    show ?thesis
    proof (cases "is_cont b'")
      case True
      show ?thesis
      proof (cases "chars bs")
        case Nil
        with "2.prems" Cons True show ?thesis by simp
      next
        case c: (Cons h hs)
        with "2.prems" Cons True have "g = b # h \<or> g \<in> set hs" by simp
        then show ?thesis
        proof
          assume "g = b # h"
          then show ?thesis by simp
        next
          assume "g \<in> set hs"
          then have "g \<in> set (chars bs)" using c by simp
          from "2.IH"(1) [OF Cons True this] show ?thesis .
        qed
      qed
    next
      case False
      with "2.prems" Cons have "g = [b] \<or> g \<in> set (chars bs)" by simp
      then show ?thesis
      proof
        assume "g = [b]"
        then show ?thesis by simp
      next
        assume "g \<in> set (chars bs)"
        from "2.IH"(2) [OF Cons False this] show ?thesis .
      qed
    qed
  qed
qed

text \<open>\<^verbatim>\<open>split()\<close> finds no word exactly in a text of white space only; a word is never
  empty and holds no white space.\<close>

lemma words_empty_iff: "words cs = [] \<longleftrightarrow> (\<forall>c \<in> set cs. ws_char c)"
proof (induction cs rule: words.induct)
  case 1
  then show ?case by simp
next
  case (2 c cs)
  show ?case
  proof (cases "ws_char c")
    case True
    with 2 show ?thesis by simp
  next
    case False
    then show ?thesis by (simp split: list.splits)
  qed
qed

lemma split_ws_empty_iff: "split_ws s = [] \<longleftrightarrow> (\<forall>c \<in> set (chars s). ws_char c)"
  by (simp add: split_ws_def words_empty_iff)

lemma words_tokens:
  "w \<in> set (words s) \<Longrightarrow> w \<noteq> [] \<and> (\<forall>c \<in> set w. \<not> ws_char c \<and> c \<in> set s)"
proof (induction s arbitrary: w rule: words.induct)
  case 1
  then show ?case by simp
next
  case (2 c cs)
  show ?case
  proof (cases "ws_char c")
    case True
    with "2.prems" have "w \<in> set (words cs)" by simp
    from "2.IH"(1) [OF True this] show ?thesis by simp
  next
    case False
    show ?thesis
    proof (cases cs)
      case Nil
      with "2.prems" False show ?thesis by simp
    next
      case (Cons d ds)
      show ?thesis
      proof (cases "ws_char d")
        case True
        from "2.prems" False Cons True have "w = [c] \<or> w \<in> set (words cs)" by simp
        then show ?thesis
        proof
          assume "w = [c]"
          with False show ?thesis by simp
        next
          assume "w \<in> set (words cs)"
          from "2.IH"(2) [OF False Cons True this] show ?thesis by simp
        qed
      next
        case nd: False
        show ?thesis
        proof (cases "words cs")
          case Nil
          with "2.prems" False Cons nd show ?thesis by simp
        next
          case (Cons v vs)
          with "2.prems" False \<open>cs = d # ds\<close> nd have "w = c # v \<or> w \<in> set vs" by simp
          then show ?thesis
          proof
            assume w: "w = c # v"
            have "v \<in> set (words cs)" using Cons by simp
            from "2.IH"(3) [OF False \<open>cs = d # ds\<close> nd this] w False show ?thesis by simp
          next
            assume "w \<in> set vs"
            then have "w \<in> set (words cs)" using Cons by simp
            from "2.IH"(3) [OF False \<open>cs = d # ds\<close> nd this] show ?thesis by simp
          qed
        qed
      qed
    qed
  qed
qed

lemma split_ws_tokens: "w \<in> set (split_ws s) \<Longrightarrow> w \<noteq> []"
proof -
  assume "w \<in> set (split_ws s)"
  then obtain cs where cs: "cs \<in> set (words (chars s))" and w: "w = concat cs"
    by (auto simp: split_ws_def)
  from words_tokens [OF cs] obtain c where "c \<in> set cs" "c \<in> set (chars s)"
    by (cases cs) auto
  with chars_nonempty [of c s] w show ?thesis by auto
qed

text \<open>\<^verbatim>\<open>strip\<close> leaves no white space at either end, takes nothing but white space
  away, and changes nothing when applied again.\<close>

lemma dropWhile_rev_hd:
  "rev (dropWhile P (rev xs)) \<noteq> [] \<Longrightarrow> hd (rev (dropWhile P (rev xs))) = hd xs"
proof (cases xs)
  case Nil
  then show ?thesis by simp
next
  case (Cons x ys)
  assume n: "rev (dropWhile P (rev xs)) \<noteq> []"
  show ?thesis
  proof (cases "\<forall>y \<in> set ys. P y")
    case True
    then have e: "dropWhile P (rev ys @ [x]) = dropWhile P [x]"
      by (intro dropWhile_append2) simp
    from n have "\<not> P x" unfolding Cons by (simp add: e split: if_splits)
    then show ?thesis unfolding Cons by (simp add: e)
  next
    case False
    then obtain y where "y \<in> set (rev ys)" "\<not> P y" by auto
    then have e: "dropWhile P (rev ys @ [x]) = dropWhile P (rev ys) @ [x]"
      by (rule dropWhile_append1)
    show ?thesis unfolding Cons by (simp add: e)
  qed
qed

lemma strip_chars_trimmed:
  assumes "strip_chars cs \<noteq> []"
  shows "\<not> ws_char (hd (strip_chars cs)) \<and> \<not> ws_char (last (strip_chars cs))"
proof -
  let ?t = "dropWhile ws_char cs"
  from assms have t: "?t \<noteq> []" by (cases ?t) (simp_all add: strip_chars_def)
  from assms have r: "dropWhile ws_char (rev ?t) \<noteq> []" by (simp add: strip_chars_def)
  have "hd (strip_chars cs) = hd ?t"
    using assms dropWhile_rev_hd [of ws_char ?t] by (simp add: strip_chars_def)
  moreover have "\<not> ws_char (hd ?t)" using t by (rule hd_dropWhile)
  moreover have "last (strip_chars cs) = hd (dropWhile ws_char (rev ?t))"
    by (simp add: strip_chars_def last_rev)
  moreover have "\<not> ws_char (hd (dropWhile ws_char (rev ?t)))" using r by (rule hd_dropWhile)
  ultimately show ?thesis by simp
qed

lemma strip_chars_idem: "strip_chars (strip_chars cs) = strip_chars cs"
proof (cases "strip_chars cs = []")
  case True
  then show ?thesis by (simp add: strip_chars_def [of "[]"])
next
  case False
  from strip_chars_trimmed [OF False] have a: "\<not> ws_char (hd (strip_chars cs))"
    and b: "\<not> ws_char (last (strip_chars cs))" by auto
  from False a have 1: "dropWhile ws_char (strip_chars cs) = strip_chars cs"
    by (cases "strip_chars cs") auto
  from False b have "\<not> ws_char (hd (rev (strip_chars cs)))" by (simp add: hd_rev)
  with False have 2: "dropWhile ws_char (rev (strip_chars cs)) = rev (strip_chars cs)"
    by (cases "rev (strip_chars cs)") auto
  show ?thesis
    unfolding strip_chars_def [of "strip_chars cs"] 1 2 by simp
qed

lemma strip_chars_cut:
  "\<exists>pre post. cs = pre @ strip_chars cs @ post
     \<and> (\<forall>c \<in> set pre. ws_char c) \<and> (\<forall>c \<in> set post. ws_char c)"
proof -
  let ?pre = "takeWhile ws_char cs"
  let ?t = "dropWhile ws_char cs"
  let ?post = "rev (takeWhile ws_char (rev ?t))"
  have 1: "cs = ?pre @ ?t" by simp
  have "rev (takeWhile ws_char (rev ?t) @ dropWhile ws_char (rev ?t)) = rev (rev ?t)"
    by (simp only: takeWhile_dropWhile_id)
  then have "rev (dropWhile ws_char (rev ?t)) @ ?post = ?t"
    by (simp only: rev_append rev_rev_ident)
  then have 2: "?t = strip_chars cs @ ?post" by (simp only: strip_chars_def)
  from 1 2 have "cs = ?pre @ strip_chars cs @ ?post" by simp
  moreover have "\<forall>c \<in> set ?pre. ws_char c" by (auto dest: set_takeWhileD)
  moreover have "\<forall>c \<in> set ?post. ws_char c" by (auto dest: set_takeWhileD)
  ultimately show ?thesis by blast
qed

lemma strip_subset: "set (strip a) \<subseteq> set a"
proof -
  obtain pre post where "chars a = pre @ strip_chars (chars a) @ post"
    using strip_chars_cut [of "chars a"] by blast
  then have "concat (chars a) = concat pre @ strip a @ concat post"
    by (metis concat_append strip_def)
  then have eq: "a = concat pre @ strip a @ concat post" by (simp only: chars_concat)
  have sub: "set m \<subseteq> set xs" if "xs = p @ m @ q" for xs p m q :: string
    using that by auto
  from sub [OF eq] show ?thesis .
qed

text \<open>An author token is not empty, holds no comma and has no white space at either
  end.\<close>

lemma author_tokens_trimmed:
  assumes "t \<in> set (spec_author_tokens authors)"
  shows "t \<noteq> [] \<and> CHR '','' \<notin> set t
    \<and> (\<exists>cs. t = concat cs \<and> cs \<noteq> [] \<and> \<not> ws_char (hd cs) \<and> \<not> ws_char (last cs))"
proof -
  from assms obtain a where a: "a \<in> set (split_on CHR '','' authors)" and t: "t = strip a"
    and n: "t \<noteq> []"
    by (auto simp: spec_author_tokens_def)
  from split_on_no_sep [OF a] have "CHR '','' \<notin> set a" .
  with strip_subset [of a] t have c: "CHR '','' \<notin> set t" by auto
  from n t have ne: "strip_chars (chars a) \<noteq> []" by (auto simp: strip_def)
  from strip_chars_trimmed [OF ne] t ne
  have "\<exists>cs. t = concat cs \<and> cs \<noteq> [] \<and> \<not> ws_char (hd cs) \<and> \<not> ws_char (last cs)"
    by (auto simp: strip_def)
  with n c show ?thesis by simp
qed

section \<open>The author entries of a paper\<close>

lemma authors_loop_names: "map author_name (fst (authors_loop nw tr as)) = as"
  by (induction as arbitrary: tr) (simp_all add: case_prod_beta Let_def)

lemma authors_list_refines: "authors_list authors = spec_author_tokens authors"
  by (simp add: authors_list_def spec_author_tokens_def filter_map comp_def)

text \<open>The keys of a profile detail are distinct.\<close>

lemma distinct_basic_info:
  "distinct (map fst d) \<Longrightarrow> distinct (map fst (basic_info soup d))"
  by (simp add: basic_info_def Let_def distinct_dict_set split: option.splits)

lemma distinct_profile_page: "distinct (map fst (profile_page soup))"
  by (simp add: profile_page_def Let_def distinct_dict_set distinct_basic_info)

lemma distinct_profile_detail:
  "distinct (map fst (fst (get_author_profile_data nw h u)))"
  by (simp add: get_author_profile_data_def distinct_profile_page split: pyval.splits sum.splits)

text \<open>
  Claim C6. The merged record \<^verbatim>\<open>{**profile, **profile_data}\<close> is the shallow union of
  the candidate \<open>c\<close> and the detail \<open>d\<close>: its keys are the keys of either, a key of
  \<open>d\<close> carries the value of \<open>d\<close> (also when \<open>c\<close> has the key), and a key of \<open>c\<close>
  alone carries the value of \<open>c\<close>. This holds for every \<open>d\<close> with distinct keys, as
  a Python dictionary has them, and so for every detail the Profile Resolver returns.
\<close>

theorem merge_law:
  "(distinct (map fst d) \<longrightarrow>
      set (map fst (dict_merge c d)) = set (map fst c) \<union> set (map fst d)
      \<and> dict_get (dict_merge c d) k =
          (case dict_get d k of Some v \<Rightarrow> Some v | None \<Rightarrow> dict_get c k))
   \<and> set (map fst (dict_merge c (fst (get_author_profile_data nw h u))))
       = set (map fst c) \<union> set (map fst (fst (get_author_profile_data nw h u)))
   \<and> dict_get (dict_merge c (fst (get_author_profile_data nw h u))) k =
       (case dict_get (fst (get_author_profile_data nw h u)) k of
          Some v \<Rightarrow> Some v
        | None \<Rightarrow> dict_get c k)"
proof -
  have g: "set (map fst (dict_merge c d)) = set (map fst c) \<union> set (map fst d)
      \<and> dict_get (dict_merge c d) k =
          (case dict_get d k of Some v \<Rightarrow> Some v | None \<Rightarrow> dict_get c k)"
    if "distinct (map fst d)" for d
    using that keys_dict_merge [of c d]
    by (simp add: dict_get_def map_of_dict_merge split: option.splits)
  from g [OF distinct_profile_detail [of nw h u]] g [of d] show ?thesis by blast
qed

theorem merge_law_witness:
  "distinct (map fst [(''name'', PStr ''Ann Lee''), (''articles'', PList [])])
   \<and> dict_get (dict_merge [(''name'', PStr ''A Lee''), (''email'', PStr ''x.org'')]
                 [(''name'', PStr ''Ann Lee''), (''articles'', PList [])]) ''name''
       = Some (PStr ''Ann Lee'')
   \<and> dict_get (dict_merge [(''name'', PStr ''A Lee''), (''email'', PStr ''x.org'')]
                 [(''name'', PStr ''Ann Lee''), (''articles'', PList [])]) ''email''
       = Some (PStr ''x.org'')"
proof -
  let ?c = "[(''name'', PStr ''A Lee''), (''email'', PStr ''x.org'')]"
  let ?d = "[(''name'', PStr ''Ann Lee''), (''articles'', PList [])]"
  have h: "distinct (map fst ?d)"
    by simp
  from merge_law [of ?d ?c "''name''"] h
  have n: "dict_get (dict_merge ?c ?d) ''name'' =
             (case dict_get ?d ''name'' of Some v \<Rightarrow> Some v | None \<Rightarrow> dict_get ?c ''name'')"
    by blast
  from merge_law [of ?d ?c "''email''"] h
  have e: "dict_get (dict_merge ?c ?d) ''email'' =
             (case dict_get ?d ''email'' of Some v \<Rightarrow> Some v | None \<Rightarrow> dict_get ?c ''email'')"
    by blast
  have v: "dict_get ?d ''name'' = Some (PStr ''Ann Lee'')" "dict_get ?d ''email'' = None"
    "dict_get ?c ''email'' = Some (PStr ''x.org'')"
    by (simp_all add: dict_get_def)
  from h n e show ?thesis
    unfolding v by simp
qed

text \<open>
  Claim C7. For a paper whose author list is a string, the author entries of its output
  record are, in order and with repetitions kept, the non-empty trimmed tokens of the
  author list split at the commas; so \<^verbatim>\<open>"A. Smith, B. Lee, B. Lee"\<close> gives three
  author entries. Trimming takes away all white space of Python, so
  \<^verbatim>\<open>"A\u00a0,\u00a0,\u3000B"\<close> gives the two entries \<^verbatim>\<open>A\<close> and \<^verbatim>\<open>B\<close>.
\<close>

theorem author_entries_from_split:
  "(paper_get paper ''authors'' [] = Some authors \<longrightarrow>
      (case process_paper nw tr paper of
         Inl e \<Rightarrow> False
       | Inr (entry, tr') \<Rightarrow>
           map author_name (authors_details entry) = spec_author_tokens authors))
   \<and> authors_list ''A. Smith, B. Lee, B. Lee'' = [''A. Smith'', ''B. Lee'', ''B. Lee'']
   \<and> authors_list [CHR ''A'', CHR 0xC2, CHR 0xA0, CHR '','', CHR 0xC2, CHR 0xA0, CHR '','',
                    CHR 0xE3, CHR 0x80, CHR 0x80, CHR ''B''] = [''A'', ''B'']"
proof -
  have "map author_name (fst (authors_loop nw tr1 (authors_list authors)))
          = spec_author_tokens authors" for tr1
    using authors_loop_names [of nw tr1 "authors_list authors"]
    by (simp add: authors_list_refines)
  then have a: "paper_get paper ''authors'' [] = Some authors \<longrightarrow>
      (case process_paper nw tr paper of
         Inl e \<Rightarrow> False
       | Inr (entry, tr') \<Rightarrow>
           map author_name (authors_details entry) = spec_author_tokens authors)"
    by (simp add: process_paper_def case_prod_beta Let_def)
  have b: "authors_list ''A. Smith, B. Lee, B. Lee'' = [''A. Smith'', ''B. Lee'', ''B. Lee'']"
    by code_simp
  have c: "authors_list [CHR ''A'', CHR 0xC2, CHR 0xA0, CHR '','', CHR 0xC2, CHR 0xA0, CHR '','',
                    CHR 0xE3, CHR 0x80, CHR 0x80, CHR ''B''] = [''A'', ''B'']"
    by code_simp
  from a b c show ?thesis by (intro conjI)
qed

theorem author_entries_from_split_witness:
  "paper_get [(''title'', Some ''T''), (''authors'', Some ''A. Smith, B. Lee, B. Lee'')]
     ''authors'' [] = Some ''A. Smith, B. Lee, B. Lee''
   \<and> (case process_paper (\<lambda>tr url. Inl RequestException) []
             [(''title'', Some ''T''), (''authors'', Some ''A. Smith, B. Lee, B. Lee'')] of
        Inl e \<Rightarrow> False
      | Inr (entry, tr') \<Rightarrow>
          map author_name (authors_details entry) = [''A. Smith'', ''B. Lee'', ''B. Lee''])"
proof -
  have h: "paper_get [(''title'', Some ''T''), (''authors'', Some ''A. Smith, B. Lee, B. Lee'')]
     ''authors'' [] = Some ''A. Smith, B. Lee, B. Lee''"
    by (simp add: paper_get_def)
  have t: "spec_author_tokens ''A. Smith, B. Lee, B. Lee'' = [''A. Smith'', ''B. Lee'', ''B. Lee'']"
    by code_simp
  from author_entries_from_split
      [of "[(''title'', Some ''T''), (''authors'', Some ''A. Smith, B. Lee, B. Lee'')]"
          "''A. Smith, B. Lee, B. Lee''" "\<lambda>tr url. Inl RequestException" "[]"]
  have "paper_get [(''title'', Some ''T''), (''authors'', Some ''A. Smith, B. Lee, B. Lee'')]
          ''authors'' [] = Some ''A. Smith, B. Lee, B. Lee'' \<longrightarrow>
      (case process_paper (\<lambda>tr url. Inl RequestException) []
             [(''title'', Some ''T''), (''authors'', Some ''A. Smith, B. Lee, B. Lee'')] of
         Inl e \<Rightarrow> False
       | Inr (entry, tr') \<Rightarrow>
           map author_name (authors_details entry)
             = spec_author_tokens ''A. Smith, B. Lee, B. Lee'')"
    by (rule conjunct1)
  from this [THEN mp, OF h] h show ?thesis
    unfolding t by (intro conjI)
qed

section \<open>The loops of the orchestrator\<close>

lemma detailed_profiles_skip:
  "detailed_profiles nw tr cs = detailed_profiles nw tr (filter (dict_has ''name_link'') cs)"
  by (induction cs arbitrary: tr)
     (auto simp: dict_has_def case_prod_beta Let_def split: option.splits)

lemma detailed_profiles_merged:
  "list_all2
     (\<lambda>c d. \<exists>h. d = dict_merge c
                    (fst (get_author_profile_data nw h (the (dict_get c ''name_link'')))))
     (filter (dict_has ''name_link'') cs) (fst (detailed_profiles nw tr cs))"
proof (induction cs arbitrary: tr)
  case Nil
  then show ?case by simp
next
  case (Cons c cs)
  show ?case
  proof (cases "dict_get c ''name_link''")
    case None
    then show ?thesis using Cons.IH [of tr] by (simp add: dict_has_def)
  next
    case (Some u)
    then show ?thesis
      using Cons.IH [of "snd (get_author_profile_data nw tr u) @ [Sleep 1]"]
      by (auto simp: dict_has_def case_prod_beta Let_def)
  qed
qed

lemma authors_loop_entries:
  "list_all2
     (\<lambda>a e. author_name e = a \<and>
        (\<exists>h. profiles e =
           fst (detailed_profiles nw (snd (get_scholar_profiles nw h a))
                  (fst (get_scholar_profiles nw h a)))))
     as (fst (authors_loop nw tr as))"
proof (induction as arbitrary: tr)
  case Nil
  then show ?case by simp
next
  case (Cons a as)
  let ?tr2 = "snd (detailed_profiles nw (snd (get_scholar_profiles nw tr a))
                 (fst (get_scholar_profiles nw tr a)))"
  show ?case using Cons.IH [of "?tr2 @ [Sleep 1]"]
    by (auto simp: case_prod_beta Let_def)
qed

lemma process_paper_entry:
  assumes "paper_get paper ''authors'' [] = Some authors"
  shows "\<exists>tr'. process_paper nw tr paper =
           Inr (\<lparr>arxiv = paper,
                 scholar_search = fst (get_scholar_data nw tr (title_query paper)),
                 authors_details =
                   fst (authors_loop nw (snd (get_scholar_data nw tr (title_query paper)))
                          (authors_list authors))\<rparr>, tr')"
  using assms by (simp add: process_paper_def case_prod_beta Let_def)

lemma process_paper_raises:
  "paper_get paper ''authors'' [] = None \<Longrightarrow> process_paper nw tr paper = Inl AttributeError"
  by (simp add: process_paper_def case_prod_beta Let_def)

lemma final_database_entries:
  assumes "\<forall>p \<in> set papers. paper_get p ''authors'' [] \<noteq> None"
  shows "\<exists>db tr'. final_database nw tr papers = Inr (db, tr') \<and>
           list_all2 (\<lambda>p e. \<exists>h h'. process_paper nw h p = Inr (e, h')) papers db"
  using assms
proof (induction papers arbitrary: tr)
  case Nil
  then show ?case by simp
next
  case (Cons p ps)
  from Cons.prems obtain authors where a: "paper_get p ''authors'' [] = Some authors"
    by auto
  from process_paper_entry [OF a, of nw tr]
  obtain e tr1 where e: "process_paper nw tr p = Inr (e, tr1)" by blast
  from Cons.IH [of "tr1 @ [Sleep 2]"] Cons.prems
  obtain db tr2 where db: "final_database nw (tr1 @ [Sleep 2]) ps = Inr (db, tr2)"
    and all: "list_all2 (\<lambda>p e. \<exists>h h'. process_paper nw h p = Inr (e, h')) ps db"
    by auto
  from e db all show ?case by auto
qed

lemma process_paper_arxiv: "process_paper nw h p = Inr (e, h') \<Longrightarrow> arxiv e = p"
  by (auto simp: process_paper_def case_prod_beta Let_def split: option.splits)

lemma final_database_arxiv:
  "final_database nw tr papers = Inr (db, tr') \<Longrightarrow> map arxiv db = papers"
proof (induction papers arbitrary: tr db tr')
  case Nil
  then show ?case by simp
next
  case (Cons p ps)
  then show ?case
    by (auto split: sum.splits prod.splits dest: process_paper_arxiv)
qed

lemma main_load_failure: "main nw (Inl e) = Inr (None, [])"
  by (simp add: main_def)

lemma main_run:
  "main nw (Inr papers) = map_sum id (\<lambda>(db, tr). (Some db, tr)) (final_database nw [] papers)"
  by (simp add: main_def split: sum.splits)

section \<open>The statement groups of the extractors\<close>

text \<open>Each group keeps the keys distinct.\<close>

lemma distinct_result_title:
  "distinct (map fst d) \<Longrightarrow> distinct (map fst (result_title el d))"
  by (simp add: result_title_def Let_def distinct_dict_set split: option.splits)

lemma distinct_result_displayed_link:
  "distinct (map fst d) \<Longrightarrow> distinct (map fst (result_displayed_link el d))"
  by (simp add: result_displayed_link_def distinct_dict_set split: option.splits)

lemma distinct_result_snippet:
  "distinct (map fst d) \<Longrightarrow> distinct (map fst (result_snippet el d))"
  by (simp add: result_snippet_def distinct_dict_set split: option.splits)

lemma distinct_result_cited:
  "distinct (map fst d) \<Longrightarrow> distinct (map fst (result_cited el d))"
  by (simp add: result_cited_def distinct_dict_set split: option.splits)

lemma distinct_result_versions:
  "distinct (map fst d) \<Longrightarrow> distinct (map fst (result_versions el d))"
  by (simp add: result_versions_def distinct_dict_set split: option.splits list.splits)

lemma distinct_profile_name:
  "distinct (map fst d) \<Longrightarrow> distinct (map fst (profile_name el d))"
  by (simp add: profile_name_def Let_def distinct_dict_set split: option.splits)

lemma distinct_profile_position:
  "distinct (map fst d) \<Longrightarrow> distinct (map fst (profile_position el d))"
  by (simp add: profile_position_def distinct_dict_set split: option.splits)

lemma distinct_profile_email:
  "distinct (map fst d) \<Longrightarrow> distinct (map fst (profile_email el d))"
  by (simp add: profile_email_def distinct_dict_set split: option.splits)

lemma distinct_profile_departments:
  "distinct (map fst d) \<Longrightarrow> distinct (map fst (profile_departments el d))"
  by (simp add: profile_departments_def distinct_dict_set split: option.splits)

lemma distinct_profile_cited:
  "distinct (map fst d) \<Longrightarrow> profile_cited el d = Inr d' \<Longrightarrow> distinct (map fst d')"
  by (auto simp: profile_cited_def distinct_dict_set split: option.splits sum.splits)

lemmas distinct_steps =
  distinct_result_title distinct_result_displayed_link distinct_result_snippet
  distinct_result_cited distinct_result_versions
  distinct_profile_name distinct_profile_position distinct_profile_email
  distinct_profile_departments

text \<open>Each group changes the keys it assigns and no other.\<close>

lemma result_title_other:
  "k \<notin> {''title'', ''title_link'', ''id''} \<Longrightarrow> map_of (result_title el d) k = map_of d k"
  by (simp add: result_title_def Let_def map_of_dict_set split: option.splits)

lemma result_title_title:
  "map_of (result_title el d) ''title'' =
     (case select_one el ''.gs_rt'' of
        None \<Rightarrow> map_of d ''title''
      | Some t \<Rightarrow> Some (PStr (get_text t)))"
  by (simp add: result_title_def Let_def map_of_dict_set split: option.splits)

lemma result_title_link:
  "map_of (result_title el d) ''title_link'' =
     (case select_one el ''.gs_rt'' of
        None \<Rightarrow> map_of d ''title_link''
      | Some t \<Rightarrow>
          (case find_tag t ''a'' of
             None \<Rightarrow> map_of d ''title_link''
           | Some a \<Rightarrow>
               (case map_of (tag_attrs a) ''href'' of
                  None \<Rightarrow> map_of d ''title_link''
                | Some href \<Rightarrow> Some (PStr href))))"
  by (simp add: result_title_def Let_def map_of_dict_set split: option.splits)

lemma result_title_id:
  "map_of (result_title el d) ''id'' =
     (case select_one el ''.gs_rt'' of
        None \<Rightarrow> map_of d ''id''
      | Some t \<Rightarrow>
          (case find_tag t ''a'' of
             None \<Rightarrow> map_of d ''id''
           | Some a \<Rightarrow>
               (case map_of (tag_attrs a) ''href'' of
                  None \<Rightarrow> map_of d ''id''
                | Some href \<Rightarrow> Some (PStr (attr_get a ''id'' [])))))"
  by (simp add: result_title_def Let_def map_of_dict_set split: option.splits)

lemma map_of_result_displayed_link:
  "map_of (result_displayed_link el d) k =
     (case select_one el ''.gs_a'' of
        None \<Rightarrow> map_of d k
      | Some t \<Rightarrow> if k = ''displayed_link'' then Some (PStr (get_text t)) else map_of d k)"
  by (simp add: result_displayed_link_def map_of_dict_set split: option.splits)

lemma map_of_result_snippet:
  "map_of (result_snippet el d) k =
     (case select_one el ''.gs_rs'' of
        None \<Rightarrow> map_of d k
      | Some t \<Rightarrow> if k = ''snippet'' then Some (PStr (get_text_strip t)) else map_of d k)"
  by (simp add: result_snippet_def map_of_dict_set split: option.splits)

lemma map_of_result_cited:
  "map_of (result_cited el d) k =
     (case select_one el ''.gs_nph+ a'' of
        None \<Rightarrow> map_of d k
      | Some t \<Rightarrow>
          if k = ''cited_link''
          then Some (PStr (''https://scholar.google.com'' @ attr_get t ''href'' []))
          else if k = ''cited_by_count'' then Some (PStr (get_text t))
          else map_of d k)"
  by (simp add: result_cited_def map_of_dict_set split: option.splits)

lemma map_of_result_versions:
  "map_of (result_versions el d) k =
     (case select_one el ''a ~ a'' of
        None \<Rightarrow> map_of d k
      | Some v0 \<Rightarrow>
          (case find_next_sibling v0 ''a'' of
             None \<Rightarrow> map_of d k
           | Some t \<Rightarrow>
               if k = ''versions_link''
               then Some (PStr (''https://scholar.google.com'' @ attr_get t ''href'' []))
               else if k = ''versions_count'' then Some (PStr (get_text t))
               else map_of d k))"
  by (simp add: result_versions_def select_one_def map_of_dict_set
        split: option.splits list.splits)

lemma profile_name_other:
  "k \<notin> {''name'', ''name_link''} \<Longrightarrow> map_of (profile_name el d) k = map_of d k"
  by (simp add: profile_name_def Let_def map_of_dict_set split: option.splits)

lemma profile_name_name:
  "map_of (profile_name el d) ''name'' =
     (case select_one el ''.gs_ai_name'' of
        None \<Rightarrow> map_of d ''name''
      | Some t \<Rightarrow> Some (PStr (get_text t)))"
  by (simp add: profile_name_def Let_def map_of_dict_set split: option.splits)

lemma profile_name_link:
  "map_of (profile_name el d) ''name_link'' =
     (case select_one el ''.gs_ai_name'' of
        None \<Rightarrow> map_of d ''name_link''
      | Some t \<Rightarrow>
          (case find_tag t ''a'' of
             None \<Rightarrow> map_of d ''name_link''
           | Some a \<Rightarrow>
               (case map_of (tag_attrs a) ''href'' of
                  None \<Rightarrow> map_of d ''name_link''
                | Some href \<Rightarrow> Some (PStr (''https://scholar.google.com'' @ href)))))"
  by (simp add: profile_name_def Let_def map_of_dict_set split: option.splits)

lemma map_of_profile_position:
  "map_of (profile_position el d) k =
     (case select_one el ''.gs_ai_aff'' of
        None \<Rightarrow> map_of d k
      | Some t \<Rightarrow> if k = ''position'' then Some (PStr (get_text t)) else map_of d k)"
  by (simp add: profile_position_def map_of_dict_set split: option.splits)

lemma map_of_profile_email:
  "map_of (profile_email el d) k =
     (case select_one el ''.gs_ai_eml'' of
        None \<Rightarrow> map_of d k
      | Some t \<Rightarrow> if k = ''email'' then Some (PStr (get_text t)) else map_of d k)"
  by (simp add: profile_email_def map_of_dict_set split: option.splits)

lemma map_of_profile_departments:
  "map_of (profile_departments el d) k =
     (case select_one el ''.gs_ai_int'' of
        None \<Rightarrow> map_of d k
      | Some t \<Rightarrow> if k = ''departments'' then Some (PStr (get_text t)) else map_of d k)"
  by (simp add: profile_departments_def map_of_dict_set split: option.splits)

lemma map_of_profile_cited:
  "profile_cited el d = Inr d' \<Longrightarrow>
   map_of d' k =
     (case select_one el ''.gs_ai_cby'' of
        None \<Rightarrow> map_of d k
      | Some t \<Rightarrow>
          if k = ''cited_by_count'' then Some (PStr (last (split_ws (get_text t))))
          else map_of d k)"
  by (auto simp: profile_cited_def last_item_def map_of_dict_set
        split: option.splits sum.splits list.splits)
text \<open>When the citation text raises and when it does not.\<close>

lemma profile_cited_raises_iff:
  "(\<exists>e. profile_cited el d = Inl e) \<longleftrightarrow>
   (\<exists>t. select_one el ''.gs_ai_cby'' = Some t \<and> split_ws (get_text t) = [])"
  by (auto simp: profile_cited_def last_item_def split: option.splits list.splits)

lemma scholar_profile_raises_iff:
  "(\<exists>e. scholar_profile el = Inl e) \<longleftrightarrow>
   (\<exists>t. select_one el ''.gs_ai_cby'' = Some t \<and> (\<forall>c \<in> set (chars (get_text t)). ws_char c))"
proof -
  let ?d = "profile_departments el (profile_email el (profile_position el (profile_name el [])))"
  have "(\<exists>e. scholar_profile el = Inl e) \<longleftrightarrow> (\<exists>e. profile_cited el ?d = Inl e)"
    by (auto simp: scholar_profile_def Let_def split: sum.splits)
  then show ?thesis
    by (simp add: profile_cited_raises_iff split_ws_empty_iff)
qed

text \<open>Every value of a candidate is a string.\<close>

lemma str_valued_empty: "str_valued []"
  by (simp add: str_valued_def)

lemma str_valued_dict_set: "str_valued d \<Longrightarrow> str_valued (dict_set k (PStr s) d)"
  by (induction d) (auto simp: str_valued_def)

lemma str_valued_remove_empty: "str_valued d \<Longrightarrow> str_valued (remove_empty d)"
  by (induction d) (auto simp: remove_empty_def str_valued_def)

lemma str_valued_lookup: "str_valued d \<Longrightarrow> dict_get d k = Some v \<Longrightarrow> \<exists>s. v = PStr s"
proof (induction d)
  case Nil
  then show ?case by (simp add: dict_get_def)
next
  case (Cons p d)
  then show ?case
    by (cases p; cases v) (auto simp: dict_get_def str_valued_def split: if_splits)
qed

lemma str_valued_profile_name: "str_valued d \<Longrightarrow> str_valued (profile_name el d)"
  by (simp add: profile_name_def Let_def str_valued_dict_set split: option.splits)

lemma str_valued_profile_position: "str_valued d \<Longrightarrow> str_valued (profile_position el d)"
  by (simp add: profile_position_def str_valued_dict_set split: option.splits)

lemma str_valued_profile_email: "str_valued d \<Longrightarrow> str_valued (profile_email el d)"
  by (simp add: profile_email_def str_valued_dict_set split: option.splits)

lemma str_valued_profile_departments: "str_valued d \<Longrightarrow> str_valued (profile_departments el d)"
  by (simp add: profile_departments_def str_valued_dict_set split: option.splits)

lemma str_valued_profile_cited:
  "str_valued d \<Longrightarrow> profile_cited el d = Inr d' \<Longrightarrow> str_valued d'"
  by (auto simp: profile_cited_def str_valued_dict_set split: option.splits sum.splits)

lemma scholar_profile_str:
  assumes "scholar_profile el = Inr p"
  shows "str_valued p"
proof -
  let ?d = "profile_departments el (profile_email el (profile_position el (profile_name el [])))"
  have d: "str_valued ?d"
    by (intro str_valued_profile_departments str_valued_profile_email
          str_valued_profile_position str_valued_profile_name str_valued_empty)
  from assms obtain d' where c: "profile_cited el ?d = Inr d'" and p: "p = remove_empty d'"
    by (auto simp: scholar_profile_def Let_def split: sum.splits)
  from str_valued_profile_cited [OF d c] show ?thesis
    by (simp add: p str_valued_remove_empty)
qed

section \<open>Requests made by the resolvers and the loops\<close>

lemma requests_append: "requests (a @ b) = requests a @ requests b"
  by (simp add: requests_def)

lemma requests_simps:
  "requests [] = []"
  "requests (Get u # tr) = u # requests tr"
  "requests (Sleep n # tr) = requests tr"
  by (simp_all add: requests_def)

lemma get_scholar_data_trace:
  "snd (get_scholar_data nw tr query) = tr @ [Get (scholar_url query)]"
  by (simp add: get_scholar_data_def Let_def split: sum.splits)

lemma get_scholar_profiles_trace:
  "snd (get_scholar_profiles nw tr author) = tr @ [Get (profiles_url author)]"
  by (simp add: get_scholar_profiles_def Let_def split: sum.splits)

lemma get_author_profile_data_trace:
  "snd (get_author_profile_data nw tr (PStr url)) = tr @ [Get url]"
  by (simp add: get_author_profile_data_def split: sum.splits)

lemma scholar_profiles_str:
  "scholar_profiles els = Inr ps \<Longrightarrow> \<forall>p \<in> set ps. str_valued p"
proof (induction els arbitrary: ps)
  case Nil
  then show ?case by simp
next
  case (Cons el els)
  from Cons.prems obtain p ps' where p: "scholar_profile el = Inr p"
    and ps': "scholar_profiles els = Inr ps'" and ps: "ps = p # ps'"
    by (auto split: sum.splits)
  from scholar_profile_str [OF p] Cons.IH [OF ps'] show ?case by (simp add: ps)
qed

lemma get_scholar_profiles_str:
  "\<forall>p \<in> set (fst (get_scholar_profiles nw tr author)). str_valued p"
proof (cases "nw tr (profiles_url author)")
  case (Inl e)
  then show ?thesis by (simp add: get_scholar_profiles_def)
next
  case (Inr soup)
  then show ?thesis
    using scholar_profiles_str [of "select soup ''.gsc_1usr''"]
    by (cases "scholar_profiles (select soup ''.gsc_1usr'')")
       (simp_all add: get_scholar_profiles_def)
qed

lemma detailed_profiles_requests:
  assumes "\<forall>p \<in> set cs. str_valued p"
  shows "length (requests (snd (detailed_profiles nw tr cs))) =
           length (requests tr) + length (fst (detailed_profiles nw tr cs))"
  using assms
proof (induction cs arbitrary: tr)
  case Nil
  then show ?case by simp
next
  case (Cons c cs)
  show ?case
  proof (cases "dict_get c ''name_link''")
    case None
    then show ?thesis using Cons.IH [of tr] Cons.prems by simp
  next
    case (Some v)
    with Cons.prems obtain u where v: "v = PStr u"
      using str_valued_lookup [of c "''name_link''" v] by auto
    show ?thesis
      using Some v Cons.prems
        Cons.IH [of "snd (get_author_profile_data nw tr (PStr u)) @ [Sleep 1]"]
      by (simp add: case_prod_beta Let_def get_author_profile_data_trace
            requests_append requests_simps)
  qed
qed

lemma authors_loop_requests:
  "length (requests (snd (authors_loop nw tr as))) =
     length (requests tr) + length as
       + (\<Sum>e\<leftarrow>fst (authors_loop nw tr as). length (profiles e))"
proof (induction as arbitrary: tr)
  case Nil
  then show ?case by simp
next
  case (Cons a as)
  let ?cs = "fst (get_scholar_profiles nw tr a)"
  let ?tr1 = "snd (get_scholar_profiles nw tr a)"
  let ?tr2 = "snd (detailed_profiles nw ?tr1 ?cs)"
  have d: "length (requests ?tr2) =
             length (requests ?tr1) + length (fst (detailed_profiles nw ?tr1 ?cs))"
    by (rule detailed_profiles_requests) (rule get_scholar_profiles_str)
  show ?case
    using Cons.IH [of "?tr2 @ [Sleep 1]"] d
    by (simp add: case_prod_beta Let_def get_scholar_profiles_trace
          requests_append requests_simps)
qed

lemma process_paper_requests:
  assumes "process_paper nw tr p = Inr (e, tr')"
  shows "length (requests tr') =
           length (requests tr) + 1 + length (authors_details e)
             + (\<Sum>a\<leftarrow>authors_details e. length (profiles a))"
proof -
  from assms obtain authors where a: "paper_get p ''authors'' [] = Some authors"
    by (auto simp: process_paper_def case_prod_beta Let_def split: option.splits)
  let ?tr1 = "snd (get_scholar_data nw tr (title_query p))"
  from assms a have e: "authors_details e = fst (authors_loop nw ?tr1 (authors_list authors))"
    and t: "tr' = snd (authors_loop nw ?tr1 (authors_list authors))"
    by (auto simp: process_paper_def case_prod_beta Let_def)
  have n: "length (authors_details e) = length (authors_list authors)"
    using authors_loop_names [of nw ?tr1 "authors_list authors"] e
    by (metis length_map)
  show ?thesis
    using authors_loop_requests [of nw ?tr1 "authors_list authors"] n
    by (simp add: e t get_scholar_data_trace requests_append requests_simps)
qed

lemma final_database_requests:
  "final_database nw tr papers = Inr (db, tr') \<Longrightarrow>
   length (requests tr') =
     length (requests tr) + length db
       + (\<Sum>e\<leftarrow>db. length (authors_details e))
       + (\<Sum>e\<leftarrow>db. \<Sum>a\<leftarrow>authors_details e. length (profiles a))"
proof (induction papers arbitrary: tr db tr')
  case Nil
  then show ?case by simp
next
  case (Cons p ps)
  from Cons.prems obtain e tr1 es where
    e: "process_paper nw tr p = Inr (e, tr1)"
    and es: "final_database nw (tr1 @ [Sleep 2]) ps = Inr (es, tr')"
    and db: "db = e # es"
    by (auto split: sum.splits prod.splits)
  show ?case
    using Cons.IH [OF es] process_paper_requests [OF e]
    by (simp add: db requests_append requests_simps)
qed

section \<open>Failed fetches\<close>

lemma get_scholar_data_raises:
  "nw tr (scholar_url query) = Inl e \<Longrightarrow>
   get_scholar_data nw tr query = ([], tr @ [Get (scholar_url query)])"
  by (simp add: get_scholar_data_def)

lemma get_scholar_profiles_raises:
  "nw tr (profiles_url author) = Inl e \<Longrightarrow>
   get_scholar_profiles nw tr author = ([], tr @ [Get (profiles_url author)])"
  by (simp add: get_scholar_profiles_def)

lemma get_author_profile_data_raises:
  "nw tr url = Inl e \<Longrightarrow>
   get_author_profile_data nw tr (PStr url) = ([], tr @ [Get url])"
  by (simp add: get_author_profile_data_def)

lemma process_paper_search:
  "process_paper nw h p = Inr (e, h') \<Longrightarrow>
   scholar_search e = fst (get_scholar_data nw h (title_query p))"
  by (auto simp: process_paper_def case_prod_beta Let_def split: option.splits)

text \<open>
  Claim C5. When the fetch of a query raises, the Search Resolver returns the empty
  sequence, and so does the Author Resolver; neither propagates the exception. In the
  Orchestrator, a paper whose search fetch raises whenever it is tried gets an empty
  \<^verbatim>\<open>scholar_search\<close> in its output record, and the papers after it are still
  processed: the run yields one record for each paper, in order.
\<close>

theorem failed_fetch_gives_empty:
  "(nw tr (scholar_url query) = Inl e \<longrightarrow> fst (get_scholar_data nw tr query) = [])
   \<and> (nw tr (profiles_url author) = Inl e \<longrightarrow> fst (get_scholar_profiles nw tr author) = [])
   \<and> ((\<forall>p \<in> set papers. paper_get p ''authors'' [] \<noteq> None)
        \<and> (\<forall>h. isl (nw h (scholar_url (title_query x)))) \<longrightarrow>
       (case final_database nw tr papers of
          Inl err \<Rightarrow> False
        | Inr (db, tr') \<Rightarrow>
            map arxiv db = papers
            \<and> (\<forall>entry \<in> set db. arxiv entry = x \<longrightarrow> scholar_search entry = [])))"
proof -
  have a: "nw tr (scholar_url query) = Inl e \<longrightarrow> fst (get_scholar_data nw tr query) = []"
    by (simp add: get_scholar_data_raises)
  have b: "nw tr (profiles_url author) = Inl e \<longrightarrow> fst (get_scholar_profiles nw tr author) = []"
    by (simp add: get_scholar_profiles_raises)
  have c: "case final_database nw tr papers of
          Inl err \<Rightarrow> False
        | Inr (db, tr') \<Rightarrow>
            map arxiv db = papers
            \<and> (\<forall>entry \<in> set db. arxiv entry = x \<longrightarrow> scholar_search entry = [])"
    if wf: "\<forall>p \<in> set papers. paper_get p ''authors'' [] \<noteq> None"
      and raises: "\<forall>h. isl (nw h (scholar_url (title_query x)))"
  proof -
    from final_database_entries [OF wf, of nw tr]
    obtain db tr' where db: "final_database nw tr papers = Inr (db, tr')"
      and all: "list_all2 (\<lambda>p e. \<exists>h h'. process_paper nw h p = Inr (e, h')) papers db"
      by blast
    have "scholar_search entry = []" if "entry \<in> set db" "arxiv entry = x" for entry
    proof -
      from all that(1) obtain p h h' where pe: "process_paper nw h p = Inr (entry, h')"
        by (auto simp: list_all2_conv_all_nth in_set_conv_nth)
      from process_paper_arxiv [OF pe] that(2) have px: "p = x" by simp
      from raises obtain err where "nw h (scholar_url (title_query x)) = Inl err"
        by (metis isl_def)
      then show ?thesis
        using process_paper_search [OF pe] px by (simp add: get_scholar_data_raises)
    qed
    with db final_database_arxiv [OF db] show ?thesis by simp
  qed
  from a b c show ?thesis by blast
qed

theorem failed_fetch_gives_empty_witness:
  "fst (get_scholar_data (\<lambda>h url. Inl RequestException) [] ''X'') = []
   \<and> fst (get_scholar_profiles (\<lambda>h url. Inl RequestException) [] ''Ann Lee'') = []
   \<and> (case final_database
             (\<lambda>h url. if url = ''https://www.google.com/scholar?q=%22X%22''
                       then Inl RequestException
                       else Inr (Tag [] [] [(''.gs_r'', [Tag [] [] [] [] []])] [] []))
             []
             [[(''title'', Some ''X''), (''authors'', Some [])],
              [(''title'', Some ''Y''), (''authors'', Some [])]] of
         Inl err \<Rightarrow> False
       | Inr (db, tr') \<Rightarrow>
           map arxiv db = [[(''title'', Some ''X''), (''authors'', Some [])],
                           [(''title'', Some ''Y''), (''authors'', Some [])]]
           \<and> map scholar_search db = [[], [[]]])"
proof -
  let ?nw = "\<lambda>(h :: trace) url. if url = ''https://www.google.com/scholar?q=%22X%22''
                       then Inl RequestException
                       else Inr (Tag [] [] [(''.gs_r'', [Tag [] [] [] [] []])] [] [])"
  let ?x = "[(''title'', Some ''X''), (''authors'', Some [])] :: paper"
  let ?y = "[(''title'', Some ''Y''), (''authors'', Some [])] :: paper"
  have u: "scholar_url (title_query ?x) = ''https://www.google.com/scholar?q=%22X%22''"
    by code_simp
  have wf: "\<forall>p \<in> set [?x, ?y]. paper_get p ''authors'' [] \<noteq> None"
    by (simp add: paper_get_def)
  have r: "\<forall>h. isl (?nw h (scholar_url (title_query ?x)))"
    by (simp add: u)
  have y: "fst (get_scholar_data ?nw h (title_query ?y)) = [[]]" for h
    by (simp add: get_scholar_data_def scholar_url_def title_query_def paper_get_def py_str_def
          quote_def quote_safe_def hex_digit_def select_def scholar_result_def
          result_title_def result_displayed_link_def result_snippet_def result_cited_def
          result_versions_def select_one_def remove_empty_def)
  note t1 = failed_fetch_gives_empty
              [of "\<lambda>h url. Inl RequestException" "[]" "''X''" RequestException "''Ann Lee''" "[]" "[]"]
  note t2 = failed_fetch_gives_empty
              [of ?nw "[]" "''X''" RequestException "''Ann Lee''" "[?x, ?y]" ?x]
  from t2 wf r obtain db tr' where db: "final_database ?nw [] [?x, ?y] = Inr (db, tr')"
    and m: "map arxiv db = [?x, ?y]"
    and s: "\<forall>entry \<in> set db. arxiv entry = ?x \<longrightarrow> scholar_search entry = []"
    by (auto split: sum.splits prod.splits)
  from m obtain e1 e2 where e: "db = [e1, e2]" "arxiv e1 = ?x" "arxiv e2 = ?y"
    by (auto simp: map_eq_Cons_conv)
  from s e have s1: "scholar_search e1 = []" by simp
  have s2: "scholar_search e2 = [[]]"
  proof -
    from db e obtain h h' where "process_paper ?nw h ?y = Inr (e2, h')"
      by (auto split: sum.splits prod.splits)
    from process_paper_search [OF this] y show ?thesis by simp
  qed
  from t1 db m s1 s2 e show ?thesis by simp
qed

section \<open>One pass over the papers\<close>

text \<open>\<^verbatim>\<open>main\<close> has no handler around the work on a paper: an author list that is no
  string ends the run.\<close>

lemma final_database_aborts:
  assumes "\<exists>p \<in> set papers. paper_get p ''authors'' [] = None"
  shows "final_database nw tr papers = Inl AttributeError"
  using assms
proof (induction papers arbitrary: tr)
  case Nil
  then show ?case by simp
next
  case (Cons p ps)
  show ?case
  proof (cases "paper_get p ''authors'' [] = None")
    case True
    then show ?thesis by (simp add: process_paper_raises)
  next
    case False
    with Cons.prems have r: "\<exists>p \<in> set ps. paper_get p ''authors'' [] = None" by auto
    from False obtain e h where e: "process_paper nw tr p = Inr (e, h)"
      by (auto simp: process_paper_def case_prod_beta Let_def)
    from Cons.IH [OF r, of "h @ [Sleep 2]"] e show ?thesis by simp
  qed
qed

text \<open>
  Claim C3, as the code has it. An exception raised in the search of a paper, in the
  resolution of an author or in the fetch of a profile is caught inside that unit, which
  then yields nothing (no result, no candidate, no detail) after its single request.
  For papers whose author list is a string or is absent the run ends normally with one
  output record for each paper, in order, whatever the network does; it makes one
  request for each paper, one for each author entry and one for each profile record, so
  nothing is tried twice. \<^verbatim>\<open>main\<close> catches nothing itself: a paper whose author list
  is \<^verbatim>\<open>None\<close> raises \<^verbatim>\<open>AttributeError\<close> out of the loop, and the run ends without a
  database.
\<close>

theorem run_completes_one_pass:
  "(isl (nw h (scholar_url q)) \<longrightarrow>
      get_scholar_data nw h q = ([], h @ [Get (scholar_url q)]))
   \<and> ((case nw h (profiles_url a) of
          Inl e \<Rightarrow> True
        | Inr soup \<Rightarrow> isl (scholar_profiles (select soup ''.gsc_1usr''))) \<longrightarrow>
      get_scholar_profiles nw h a = ([], h @ [Get (profiles_url a)]))
   \<and> (isl (nw h u) \<longrightarrow> get_author_profile_data nw h (PStr u) = ([], h @ [Get u]))
   \<and> ((\<forall>p \<in> set papers. paper_get p ''authors'' [] \<noteq> None) \<longrightarrow>
      (case final_database nw tr papers of
         Inl err \<Rightarrow> False
       | Inr (db, tr') \<Rightarrow>
           map arxiv db = papers
           \<and> length (requests tr') =
               length (requests tr) + length db
                 + (\<Sum>e\<leftarrow>db. length (authors_details e))
                 + (\<Sum>e\<leftarrow>db. \<Sum>a\<leftarrow>authors_details e. length (profiles a))))
   \<and> ((\<exists>p \<in> set papers. paper_get p ''authors'' [] = None) \<longrightarrow>
      final_database nw tr papers = Inl AttributeError)"
proof -
  have a: "isl (nw h (scholar_url q)) \<longrightarrow>
      get_scholar_data nw h q = ([], h @ [Get (scholar_url q)])"
    by (auto simp: isl_def get_scholar_data_raises)
  have b: "(case nw h (profiles_url a) of
          Inl e \<Rightarrow> True
        | Inr soup \<Rightarrow> isl (scholar_profiles (select soup ''.gsc_1usr''))) \<longrightarrow>
      get_scholar_profiles nw h a = ([], h @ [Get (profiles_url a)])"
    by (auto simp: isl_def get_scholar_profiles_def split: sum.splits)
  have c: "isl (nw h u) \<longrightarrow> get_author_profile_data nw h (PStr u) = ([], h @ [Get u])"
    by (auto simp: isl_def get_author_profile_data_raises)
  have d: "case final_database nw tr papers of
         Inl err \<Rightarrow> False
       | Inr (db, tr') \<Rightarrow>
           map arxiv db = papers
           \<and> length (requests tr') =
               length (requests tr) + length db
                 + (\<Sum>e\<leftarrow>db. length (authors_details e))
                 + (\<Sum>e\<leftarrow>db. \<Sum>a\<leftarrow>authors_details e. length (profiles a))"
    if wf: "\<forall>p \<in> set papers. paper_get p ''authors'' [] \<noteq> None"
  proof -
    from final_database_entries [OF wf, of nw tr]
    obtain db tr' where db: "final_database nw tr papers = Inr (db, tr')" by blast
    from final_database_arxiv [OF db] final_database_requests [OF db] db
    show ?thesis by simp
  qed
  have e: "(\<exists>p \<in> set papers. paper_get p ''authors'' [] = None) \<longrightarrow>
      final_database nw tr papers = Inl AttributeError"
    using final_database_aborts [of papers nw tr] by blast
  from d have d': "(\<forall>p \<in> set papers. paper_get p ''authors'' [] \<noteq> None) \<longrightarrow>
      (case final_database nw tr papers of
         Inl err \<Rightarrow> False
       | Inr (db, tr') \<Rightarrow>
           map arxiv db = papers
           \<and> length (requests tr') =
               length (requests tr) + length db
                 + (\<Sum>e\<leftarrow>db. length (authors_details e))
                 + (\<Sum>e\<leftarrow>db. \<Sum>a\<leftarrow>authors_details e. length (profiles a)))"
    by (rule impI)
  from a b c d' e show ?thesis by (intro conjI)
qed

text \<open>The claim as the specification words it fails: the first paper below is processed,
  the second has no author list, and the run ends with the exception instead of two
  records.\<close>

theorem null_authors_aborts_run:
  "final_database (\<lambda>h url. Inl RequestException) []
     [[(''title'', Some ''T''), (''authors'', Some ''A'')],
      [(''title'', Some ''U''), (''authors'', None)]] = Inl AttributeError
   \<and> main (\<lambda>h url. Inl RequestException)
       (Inr [[(''title'', Some ''T''), (''authors'', Some ''A'')],
             [(''title'', Some ''U''), (''authors'', None)]]) = Inl AttributeError"
  by code_simp

theorem run_completes_one_pass_witness:
  "let nw = (\<lambda>h url.
        if url = ''https://scholar.google.com/citations?hl=en&view_op=search_authors&mauthors=A''
        then Inr (Tag [] [] [(''.gsc_1usr'',
                    [Tag [] [] [(''.gs_ai_name'', [Tag [''A''] [] [] [] []]),
                                (''.gs_ai_cby'', [Tag [] [] [] [] []])] [] []])] [] [])
        else if url = ''https://scholar.google.com/citations?hl=en&view_op=search_authors&mauthors=B''
        then Inr (Tag [] [] [(''.gsc_1usr'',
                    [Tag [] [] [(''.gs_ai_name'',
                       [Tag [''B''] [] [] [(''a'', Tag [''B''] [(''href'', ''/b'')] [] [] [])] []])]
                       [] []])] [] [])
        else Inl RequestException);
       papers = [[(''title'', Some ''T''), (''authors'', Some ''A,B'')], [(''title'', Some ''U'')]]
   in get_scholar_data nw [] ''T'' = ([], [Get ''https://www.google.com/scholar?q=T''])
      \<and> get_scholar_profiles nw [] ''A'' =
          ([], [Get ''https://scholar.google.com/citations?hl=en&view_op=search_authors&mauthors=A''])
      \<and> get_author_profile_data nw [] (PStr ''https://scholar.google.com/b'') =
          ([], [Get ''https://scholar.google.com/b''])
      \<and> (case final_database nw [] papers of
            Inl err \<Rightarrow> False
          | Inr (db, tr') \<Rightarrow>
              map arxiv db = papers
              \<and> map (\<lambda>e. map (\<lambda>a. (author_name a, length (profiles a))) (authors_details e)) db
                  = [[(''A'', 0), (''B'', 1)], []]
              \<and> length (requests tr') = 5)
      \<and> final_database nw [] [[(''title'', Some ''V''), (''authors'', None)]]
          = Inl AttributeError"
proof -
  let ?nw = "(\<lambda>(h :: trace) url.
        if url = ''https://scholar.google.com/citations?hl=en&view_op=search_authors&mauthors=A''
        then Inr (Tag [] [] [(''.gsc_1usr'',
                    [Tag [] [] [(''.gs_ai_name'', [Tag [''A''] [] [] [] []]),
                                (''.gs_ai_cby'', [Tag [] [] [] [] []])] [] []])] [] [])
        else if url = ''https://scholar.google.com/citations?hl=en&view_op=search_authors&mauthors=B''
        then Inr (Tag [] [] [(''.gsc_1usr'',
                    [Tag [] [] [(''.gs_ai_name'',
                       [Tag [''B''] [] [] [(''a'', Tag [''B''] [(''href'', ''/b'')] [] [] [])] []])]
                       [] []])] [] [])
        else Inl RequestException)"
  let ?papers = "[[(''title'', Some ''T''), (''authors'', Some ''A,B'')], [(''title'', Some ''U'')]] :: paper list"
  have u1: "scholar_url ''T'' = ''https://www.google.com/scholar?q=T''"
    by code_simp
  have u2: "profiles_url ''A'' =
      ''https://scholar.google.com/citations?hl=en&view_op=search_authors&mauthors=A''"
    by code_simp
  have h1: "isl (?nw [] (scholar_url ''T''))"
    by (simp add: u1)
  have h2: "case ?nw [] (profiles_url ''A'') of
          Inl e \<Rightarrow> True
        | Inr soup \<Rightarrow> isl (scholar_profiles (select soup ''.gsc_1usr''))"
    unfolding u2 by code_simp
  have h3: "isl (?nw [] ''https://scholar.google.com/b'')"
    by simp
  have h4: "\<forall>p \<in> set ?papers. paper_get p ''authors'' [] \<noteq> None"
    by (simp add: paper_get_def)
  have ev: "final_database ?nw [] ?papers
   = Inr ([\<lparr>arxiv = [(''title'', Some ''T''), (''authors'', Some ''A,B'')],
             scholar_search = [],
             authors_details =
               [\<lparr>author_name = ''A'', profiles = []\<rparr>,
                \<lparr>author_name = ''B'',
                 profiles = [[(''name'', PStr ''B''),
                              (''name_link'', PStr ''https://scholar.google.com/b'')]]\<rparr>]\<rparr>,
           \<lparr>arxiv = [(''title'', Some ''U'')], scholar_search = [], authors_details = []\<rparr>],
          [Get ''https://www.google.com/scholar?q=%22T%22'',
           Get ''https://scholar.google.com/citations?hl=en&view_op=search_authors&mauthors=A'',
           Sleep 1,
           Get ''https://scholar.google.com/citations?hl=en&view_op=search_authors&mauthors=B'',
           Get ''https://scholar.google.com/b'', Sleep 1, Sleep 1, Sleep 2,
           Get ''https://www.google.com/scholar?q=%22U%22'', Sleep 2])"
    by code_simp
  let ?bad = "[[(''title'', Some ''V''), (''authors'', None)]] :: paper list"
  have h5: "\<exists>p \<in> set ?bad. paper_get p ''authors'' [] = None"
    by (simp add: paper_get_def)
  from run_completes_one_pass
         [of ?nw "[]" "''T''" "''A''" "''https://scholar.google.com/b''" ?bad "[]"] h5
  have ab: "final_database ?nw [] ?bad = Inl AttributeError"
    by blast
  note t = run_completes_one_pass
             [of ?nw "[]" "''T''" "''A''" "''https://scholar.google.com/b''" ?papers "[]"]
  from t h1 h2 h3 h4 have
    "get_scholar_data ?nw [] ''T'' = ([], [] @ [Get (scholar_url ''T'')])"
    "get_scholar_profiles ?nw [] ''A'' = ([], [] @ [Get (profiles_url ''A'')])"
    "get_author_profile_data ?nw [] (PStr ''https://scholar.google.com/b'')
       = ([], [] @ [Get ''https://scholar.google.com/b''])"
    "case final_database ?nw [] ?papers of
         Inl err \<Rightarrow> False
       | Inr (db, tr') \<Rightarrow>
           map arxiv db = ?papers
           \<and> length (requests tr') =
               length (requests []) + length db
                 + (\<Sum>e\<leftarrow>db. length (authors_details e))
                 + (\<Sum>e\<leftarrow>db. \<Sum>a\<leftarrow>authors_details e. length (profiles a))"
    by blast+
  then show ?thesis
    unfolding Let_def ev u1 u2 ab by (simp add: requests_simps)
qed

section \<open>Candidates, profile lists and their order\<close>

lemma scholar_profiles_blocks:
  "scholar_profiles els = Inr ps \<Longrightarrow> list_all2 (\<lambda>el p. scholar_profile el = Inr p) els ps"
proof (induction els arbitrary: ps)
  case Nil
  then show ?case by simp
next
  case (Cons el els)
  from Cons.prems obtain p ps' where p: "scholar_profile el = Inr p"
    and ps': "scholar_profiles els = Inr ps'" and ps: "ps = p # ps'"
    by (auto split: sum.splits)
  from Cons.IH [OF ps'] p show ?case by (simp add: ps)
qed

lemma process_paper_authors:
  assumes "process_paper nw h p = Inr (e, h')"
  shows "\<exists>authors. paper_get p ''authors'' [] = Some authors
           \<and> map author_name (authors_details e) = authors_list authors
           \<and> (\<forall>a \<in> set (authors_details e). \<exists>h1.
                 profiles a =
                   fst (detailed_profiles nw (snd (get_scholar_profiles nw h1 (author_name a)))
                          (fst (get_scholar_profiles nw h1 (author_name a)))))"
proof -
  from assms obtain authors where a: "paper_get p ''authors'' [] = Some authors"
    by (auto simp: process_paper_def case_prod_beta Let_def split: option.splits)
  let ?tr1 = "snd (get_scholar_data nw h (title_query p))"
  from assms a have e: "authors_details e = fst (authors_loop nw ?tr1 (authors_list authors))"
    by (auto simp: process_paper_def case_prod_beta Let_def)
  have n: "map author_name (authors_details e) = authors_list authors"
    by (simp add: e authors_loop_names)
  have "\<exists>h1. profiles x =
           fst (detailed_profiles nw (snd (get_scholar_profiles nw h1 (author_name x)))
                  (fst (get_scholar_profiles nw h1 (author_name x))))"
    if "x \<in> set (authors_details e)" for x
    using authors_loop_entries [of nw "authors_list authors" ?tr1] that
    unfolding e by (auto simp: list_all2_conv_all_nth in_set_conv_nth)
  with a n show ?thesis by blast
qed

text \<open>
  Claim C1, as the code has it. A candidate without \<^verbatim>\<open>name_link\<close> is left out of the
  author's profile list: the loop over the candidates gives the same list (and makes the
  same requests) as on the candidates that carry a link alone. The list holds, in the
  order of the candidates, one merged record for each candidate with a link: the
  candidate updated with the detail fetched from its link. The profile list of every
  author entry is built this way from what the Author Resolver returned for the name.
\<close>

theorem only_linked_candidates_listed:
  "detailed_profiles nw tr cs = detailed_profiles nw tr (filter (dict_has ''name_link'') cs)
   \<and> list_all2
        (\<lambda>c d. \<exists>h. d = dict_merge c
                       (fst (get_author_profile_data nw h (the (dict_get c ''name_link'')))))
        (filter (dict_has ''name_link'') cs) (fst (detailed_profiles nw tr cs))
   \<and> list_all2
        (\<lambda>a e. author_name e = a \<and>
           (\<exists>h. profiles e =
              fst (detailed_profiles nw (snd (get_scholar_profiles nw h a))
                     (fst (get_scholar_profiles nw h a)))))
        as (fst (authors_loop nw tr as))"
  using detailed_profiles_skip [of nw tr cs] detailed_profiles_merged [of nw cs tr]
    authors_loop_entries [of nw as tr]
  by simp

theorem only_linked_candidates_listed_witness:
  "let c1 = [(''name'', PStr ''Ann''), (''name_link'', PStr ''https://scholar.google.com/a'')];
       c2 = [(''name'', PStr ''Bo'')];
       c3 = [(''name'', PStr ''Cy''), (''name_link'', PStr ''https://scholar.google.com/c'')];
       nw = (\<lambda>h url. if url = ''https://scholar.google.com/c''
                      then Inr (Tag [] [] [(''#gsc_prf_in'', [Tag [''Cy Young''] [] [] [] []])] [] [])
                      else Inl RequestException)
   in detailed_profiles nw [] [c1, c2, c3]
        = ([c1,
            [(''name'', PStr ''Cy Young''), (''name_link'', PStr ''https://scholar.google.com/c''),
             (''articles'', PList []),
             (''citation_metrics'', PList [PDict [], PDict [], PDict []])]],
           [Get ''https://scholar.google.com/a'', Sleep 1,
            Get ''https://scholar.google.com/c'', Sleep 1])
      \<and> detailed_profiles nw [] [c1, c2, c3] = detailed_profiles nw [] [c1, c3]"
proof -
  let ?c1 = "[(''name'', PStr ''Ann''), (''name_link'', PStr ''https://scholar.google.com/a'')]"
  let ?c2 = "[(''name'', PStr ''Bo'')]"
  let ?c3 = "[(''name'', PStr ''Cy''), (''name_link'', PStr ''https://scholar.google.com/c'')]"
  let ?nw = "\<lambda>(h :: trace) url. if url = ''https://scholar.google.com/c''
                      then Inr (Tag [] [] [(''#gsc_prf_in'', [Tag [''Cy Young''] [] [] [] []])] [] [])
                      else Inl RequestException"
  have f: "filter (dict_has ''name_link'') [?c1, ?c2, ?c3] = [?c1, ?c3]"
    by code_simp
  have ev: "detailed_profiles ?nw [] [?c1, ?c3]
        = ([?c1,
            [(''name'', PStr ''Cy Young''), (''name_link'', PStr ''https://scholar.google.com/c''),
             (''articles'', PList []),
             (''citation_metrics'', PList [PDict [], PDict [], PDict []])]],
           [Get ''https://scholar.google.com/a'', Sleep 1,
            Get ''https://scholar.google.com/c'', Sleep 1])"
    by code_simp
  from only_linked_candidates_listed [of ?nw "[]" "[?c1, ?c2, ?c3]" "[]"]
  have "detailed_profiles ?nw [] [?c1, ?c2, ?c3]
          = detailed_profiles ?nw [] (filter (dict_has ''name_link'') [?c1, ?c2, ?c3])"
    by (rule conjunct1)
  then have e: "detailed_profiles ?nw [] [?c1, ?c2, ?c3] = detailed_profiles ?nw [] [?c1, ?c3]"
    unfolding f .
  from e ev show ?thesis
    unfolding Let_def by (simp only: simp_thms)
qed

text \<open>
  The claim as the spec states it fails: the author page below has one candidate, with a
  name and no link; the Author Resolver returns it, and the author's profile list in the
  output record is empty.
\<close>

theorem linkless_candidate_dropped:
  "fst (get_scholar_profiles
          (\<lambda>h url. Inr (Tag [] [] [(''.gsc_1usr'',
             [Tag [] [] [(''.gs_ai_name'', [Tag [''Ann Lee''] [] [] [] []])] [] []])] [] []))
          [Get ''https://www.google.com/scholar?q=%22T%22''] ''Ann Lee'')
     = [[(''name'', PStr ''Ann Lee'')]]
   \<and> \<not> dict_has ''name_link'' [(''name'', PStr ''Ann Lee'')]
   \<and> final_database
        (\<lambda>h url. Inr (Tag [] [] [(''.gsc_1usr'',
           [Tag [] [] [(''.gs_ai_name'', [Tag [''Ann Lee''] [] [] [] []])] [] []])] [] []))
        [] [[(''title'', Some ''T''), (''authors'', Some ''Ann Lee'')]]
      = Inr ([\<lparr>arxiv = [(''title'', Some ''T''), (''authors'', Some ''Ann Lee'')],
                scholar_search = [],
                authors_details = [\<lparr>author_name = ''Ann Lee'', profiles = []\<rparr>]\<rparr>],
             [Get ''https://www.google.com/scholar?q=%22T%22'',
              Get ''https://scholar.google.com/citations?hl=en&view_op=search_authors&mauthors=Ann%20Lee'',
              Sleep 1, Sleep 2])"
  by code_simp

text \<open>
  Claim C8. The output keeps the order of its input at every level. For papers whose
  author list is a string: the papers of the output records are the input papers in
  order; the author names of a record are the non-empty trimmed tokens of its author list
  in order (trimmed of all white space of Python, so \<^verbatim>\<open>"\u00a0C,\u3000"\<close> names the one
  author \<^verbatim>\<open>C\<close>); the profile records of an author entry are, in order, the merged records of
  the candidates with a link among those the Author Resolver returned for the name. The
  Author Resolver returns its candidates in the order of the \<^verbatim>\<open>.gsc_1usr\<close> blocks of
  the page, one candidate for each block.
\<close>

theorem order_preserved:
  "((\<forall>p \<in> set papers. paper_get p ''authors'' [] \<noteq> None) \<longrightarrow>
      (case final_database nw tr papers of
         Inl err \<Rightarrow> False
       | Inr (db, tr') \<Rightarrow>
           map arxiv db = papers
           \<and> (\<forall>e \<in> set db.
                map author_name (authors_details e) =
                  spec_author_tokens (the (paper_get (arxiv e) ''authors'' []))
                \<and> (\<forall>a \<in> set (authors_details e). \<exists>h.
                     list_all2
                       (\<lambda>c d. \<exists>h'. d = dict_merge c
                          (fst (get_author_profile_data nw h' (the (dict_get c ''name_link'')))))
                       (filter (dict_has ''name_link'')
                          (fst (get_scholar_profiles nw h (author_name a))))
                       (profiles a)))))
   \<and> (nw h (profiles_url author) = Inr soup
        \<and> scholar_profiles (select soup ''.gsc_1usr'') = Inr ps \<longrightarrow>
      fst (get_scholar_profiles nw h author) = ps
      \<and> list_all2 (\<lambda>el p. scholar_profile el = Inr p) (select soup ''.gsc_1usr'') ps)"
proof -
  have a: "case final_database nw tr papers of
         Inl err \<Rightarrow> False
       | Inr (db, tr') \<Rightarrow>
           map arxiv db = papers
           \<and> (\<forall>e \<in> set db.
                map author_name (authors_details e) =
                  spec_author_tokens (the (paper_get (arxiv e) ''authors'' []))
                \<and> (\<forall>a \<in> set (authors_details e). \<exists>h.
                     list_all2
                       (\<lambda>c d. \<exists>h'. d = dict_merge c
                          (fst (get_author_profile_data nw h' (the (dict_get c ''name_link'')))))
                       (filter (dict_has ''name_link'')
                          (fst (get_scholar_profiles nw h (author_name a))))
                       (profiles a)))"
    if wf: "\<forall>p \<in> set papers. paper_get p ''authors'' [] \<noteq> None"
  proof -
    from final_database_entries [OF wf, of nw tr]
    obtain db tr' where db: "final_database nw tr papers = Inr (db, tr')"
      and all: "list_all2 (\<lambda>p e. \<exists>h h'. process_paper nw h p = Inr (e, h')) papers db"
      by blast
    have "map author_name (authors_details e) =
                  spec_author_tokens (the (paper_get (arxiv e) ''authors'' []))
          \<and> (\<forall>a \<in> set (authors_details e). \<exists>h.
                     list_all2
                       (\<lambda>c d. \<exists>h'. d = dict_merge c
                          (fst (get_author_profile_data nw h' (the (dict_get c ''name_link'')))))
                       (filter (dict_has ''name_link'')
                          (fst (get_scholar_profiles nw h (author_name a))))
                       (profiles a))"
      if "e \<in> set db" for e
    proof -
      from all that obtain p h h' where pe: "process_paper nw h p = Inr (e, h')"
        by (auto simp: list_all2_conv_all_nth in_set_conv_nth)
      from process_paper_authors [OF pe] process_paper_arxiv [OF pe]
      obtain authors where au: "paper_get (arxiv e) ''authors'' [] = Some authors"
        and n: "map author_name (authors_details e) = authors_list authors"
        and pr: "\<forall>a \<in> set (authors_details e). \<exists>h1.
                 profiles a =
                   fst (detailed_profiles nw (snd (get_scholar_profiles nw h1 (author_name a)))
                          (fst (get_scholar_profiles nw h1 (author_name a))))"
        by auto
      have n': "map author_name (authors_details e) =
                  spec_author_tokens (the (paper_get (arxiv e) ''authors'' []))"
        using n by (simp add: au authors_list_refines)
      have "\<exists>h. list_all2
                       (\<lambda>c d. \<exists>h'. d = dict_merge c
                          (fst (get_author_profile_data nw h' (the (dict_get c ''name_link'')))))
                       (filter (dict_has ''name_link'')
                          (fst (get_scholar_profiles nw h (author_name a))))
                       (profiles a)"
        if "a \<in> set (authors_details e)" for a
      proof -
        from pr that obtain h1 where
          "profiles a =
             fst (detailed_profiles nw (snd (get_scholar_profiles nw h1 (author_name a)))
                    (fst (get_scholar_profiles nw h1 (author_name a))))"
          by blast
        with detailed_profiles_merged
               [of nw "fst (get_scholar_profiles nw h1 (author_name a))"
                   "snd (get_scholar_profiles nw h1 (author_name a))"]
        show ?thesis by auto
      qed
      with n' show ?thesis by blast
    qed
    with db final_database_arxiv [OF db] show ?thesis by simp
  qed
  have b: "fst (get_scholar_profiles nw h author) = ps
      \<and> list_all2 (\<lambda>el p. scholar_profile el = Inr p) (select soup ''.gsc_1usr'') ps"
    if "nw h (profiles_url author) = Inr soup"
      "scholar_profiles (select soup ''.gsc_1usr'') = Inr ps"
    using that scholar_profiles_blocks [OF that(2)]
    by (simp add: get_scholar_profiles_def)
  from a b show ?thesis by blast
qed

theorem order_preserved_witness:
  "let page = Tag [] []
         [(''.gsc_1usr'',
           [Tag [] [] [(''.gs_ai_name'',
              [Tag [''X1''] [] [] [(''a'', Tag [''X1''] [(''href'', ''/x1'')] [] [] [])] []])] [] [],
            Tag [] [] [(''.gs_ai_name'', [Tag [''X2''] [] [] [] []])] [] [],
            Tag [] [] [(''.gs_ai_name'',
              [Tag [''X3''] [] [] [(''a'', Tag [''X3''] [(''href'', ''/x3'')] [] [] [])] []])] [] []])]
         [] [];
       nw = (\<lambda>h url. Inr page);
       papers = [[(''authors'', Some ''B, A'')],
                 [(''authors'', Some [CHR 0xC2, CHR 0xA0, CHR ''C'', CHR '','', CHR 0xE3, CHR 0x80, CHR 0x80])]]
   in (case final_database nw [] papers of
         Inl err \<Rightarrow> False
       | Inr (db, tr') \<Rightarrow>
           map arxiv db = papers
           \<and> map (\<lambda>e. map (\<lambda>a. (author_name a, map (\<lambda>d. dict_get d ''name'') (profiles a)))
                        (authors_details e)) db
               = [[(''B'', [Some (PStr ''X1''), Some (PStr ''X3'')]),
                   (''A'', [Some (PStr ''X1''), Some (PStr ''X3'')])],
                  [(''C'', [Some (PStr ''X1''), Some (PStr ''X3'')])]])
      \<and> map (\<lambda>c. dict_get c ''name'') (fst (get_scholar_profiles nw [] ''B''))
          = [Some (PStr ''X1''), Some (PStr ''X2''), Some (PStr ''X3'')]
      \<and> list_all2 (\<lambda>el p. scholar_profile el = Inr p) (select page ''.gsc_1usr'')
           (fst (get_scholar_profiles nw [] ''B''))"
proof -
  let ?page = "Tag [] []
         [(''.gsc_1usr'',
           [Tag [] [] [(''.gs_ai_name'',
              [Tag [''X1''] [] [] [(''a'', Tag [''X1''] [(''href'', ''/x1'')] [] [] [])] []])] [] [],
            Tag [] [] [(''.gs_ai_name'', [Tag [''X2''] [] [] [] []])] [] [],
            Tag [] [] [(''.gs_ai_name'',
              [Tag [''X3''] [] [] [(''a'', Tag [''X3''] [(''href'', ''/x3'')] [] [] [])] []])] [] []])]
         [] []"
  let ?nw = "\<lambda>(h :: trace) (url :: string). (Inr ?page :: exn + tag)"
  let ?papers = "[[(''authors'', Some ''B, A'')],
                 [(''authors'', Some [CHR 0xC2, CHR 0xA0, CHR ''C'', CHR '','', CHR 0xE3, CHR 0x80, CHR 0x80])]]
                :: paper list"
  let ?ps = "[[(''name'', PStr ''X1''), (''name_link'', PStr ''https://scholar.google.com/x1'')],
              [(''name'', PStr ''X2'')],
              [(''name'', PStr ''X3''), (''name_link'', PStr ''https://scholar.google.com/x3'')]]"
  have wf: "\<forall>p \<in> set ?papers. paper_get p ''authors'' [] \<noteq> None"
    by (simp add: paper_get_def)
  have h1: "?nw [] (profiles_url ''B'') = Inr ?page"
    by simp
  have h2: "scholar_profiles (select ?page ''.gsc_1usr'') = Inr ?ps"
    by code_simp
  have ev: "case final_database ?nw [] ?papers of
         Inl err \<Rightarrow> False
       | Inr (db, tr') \<Rightarrow>
           map (\<lambda>e. map (\<lambda>a. (author_name a, map (\<lambda>d. dict_get d ''name'') (profiles a)))
                        (authors_details e)) db
               = [[(''B'', [Some (PStr ''X1''), Some (PStr ''X3'')]),
                   (''A'', [Some (PStr ''X1''), Some (PStr ''X3'')])],
                  [(''C'', [Some (PStr ''X1''), Some (PStr ''X3'')])]]"
    by code_simp
  note t = order_preserved [of ?papers ?nw "[]" "[]" "''B''" ?page ?ps]
  from t wf have
    "case final_database ?nw [] ?papers of
       Inl err \<Rightarrow> False | Inr (db, tr') \<Rightarrow> map arxiv db = ?papers"
    by (auto split: sum.splits prod.splits)
  moreover from t h1 h2 have
    "fst (get_scholar_profiles ?nw [] ''B'') = ?ps
     \<and> list_all2 (\<lambda>el p. scholar_profile el = Inr p) (select ?page ''.gsc_1usr'') ?ps"
    by blast
  ultimately show ?thesis
    using ev unfolding Let_def
    by (auto simp: dict_get_def split: sum.splits prod.splits)
qed

section \<open>The shape of a profile detail\<close>

lemma metric_row_cases:
  "metric_row soup sel key = PDict []
   \<or> (\<exists>t. metric_row soup sel key = PDict [(key, PDict [(''all'', PStr t)])])"
  by (simp add: metric_row_def split: option.splits)

lemma profile_page_articles:
  "dict_get (profile_page soup) ''articles''
     = Some (PList (map (\<lambda>el. PDict (article_entry el)) (select soup ''#gsc_a_b .gsc_a_t'')))"
  by (simp add: profile_page_def Let_def dict_get_def map_of_dict_set)

lemma profile_page_metrics:
  "dict_get (profile_page soup) ''citation_metrics'' = Some (PList (citation_table soup))"
  by (simp add: profile_page_def Let_def dict_get_def map_of_dict_set)

text \<open>
  Claim C10. When the fetch of a profile succeeds, the detail has the key
  \<^verbatim>\<open>articles\<close> (the list of the article entries of the page) and the key
  \<^verbatim>\<open>citation_metrics\<close>, a list of exactly three rows, for the citations, the h-index
  and the i-index in this order, each row empty or holding its one value under
  \<^verbatim>\<open>all\<close>. When the fetch raises, the detail is the empty dictionary and has neither
  key.
\<close>

theorem profile_detail_shape:
  "(nw h url = Inr soup \<longrightarrow>
      (\<exists>r1 r2 r3.
         dict_get (fst (get_author_profile_data nw h (PStr url))) ''articles''
           = Some (PList (map (\<lambda>el. PDict (article_entry el))
                            (select soup ''#gsc_a_b .gsc_a_t'')))
         \<and> dict_get (fst (get_author_profile_data nw h (PStr url))) ''citation_metrics''
           = Some (PList [PDict r1, PDict r2, PDict r3])
         \<and> (r1 = [] \<or> (\<exists>t. r1 = [(''citations'', PDict [(''all'', PStr t)])]))
         \<and> (r2 = [] \<or> (\<exists>t. r2 = [(''h_index'', PDict [(''all'', PStr t)])]))
         \<and> (r3 = [] \<or> (\<exists>t. r3 = [(''i_index'', PDict [(''all'', PStr t)])]))))
   \<and> (nw h url = Inl e \<longrightarrow>
      fst (get_author_profile_data nw h (PStr url)) = []
      \<and> \<not> dict_has ''articles'' (fst (get_author_profile_data nw h (PStr url)))
      \<and> \<not> dict_has ''citation_metrics'' (fst (get_author_profile_data nw h (PStr url))))"
proof -
  have a: "\<exists>r1 r2 r3.
         dict_get (fst (get_author_profile_data nw h (PStr url))) ''articles''
           = Some (PList (map (\<lambda>el. PDict (article_entry el))
                            (select soup ''#gsc_a_b .gsc_a_t'')))
         \<and> dict_get (fst (get_author_profile_data nw h (PStr url))) ''citation_metrics''
           = Some (PList [PDict r1, PDict r2, PDict r3])
         \<and> (r1 = [] \<or> (\<exists>t. r1 = [(''citations'', PDict [(''all'', PStr t)])]))
         \<and> (r2 = [] \<or> (\<exists>t. r2 = [(''h_index'', PDict [(''all'', PStr t)])]))
         \<and> (r3 = [] \<or> (\<exists>t. r3 = [(''i_index'', PDict [(''all'', PStr t)])]))"
    if ok: "nw h url = Inr soup"
  proof -
    have d: "fst (get_author_profile_data nw h (PStr url)) = profile_page soup"
      using ok by (simp add: get_author_profile_data_def)
    from metric_row_cases [of soup "''tr:nth-child(1) .gsc_rsb_std''" "''citations''"]
    obtain r1 where r1: "metric_row soup ''tr:nth-child(1) .gsc_rsb_std'' ''citations'' = PDict r1"
      "r1 = [] \<or> (\<exists>t. r1 = [(''citations'', PDict [(''all'', PStr t)])])"
      by auto
    from metric_row_cases [of soup "''tr:nth-child(2) .gsc_rsb_std''" "''h_index''"]
    obtain r2 where r2: "metric_row soup ''tr:nth-child(2) .gsc_rsb_std'' ''h_index'' = PDict r2"
      "r2 = [] \<or> (\<exists>t. r2 = [(''h_index'', PDict [(''all'', PStr t)])])"
      by auto
    from metric_row_cases [of soup "''tr:nth-child(3) .gsc_rsb_std''" "''i_index''"]
    obtain r3 where r3: "metric_row soup ''tr:nth-child(3) .gsc_rsb_std'' ''i_index'' = PDict r3"
      "r3 = [] \<or> (\<exists>t. r3 = [(''i_index'', PDict [(''all'', PStr t)])])"
      by auto
    have "dict_get (profile_page soup) ''citation_metrics''
            = Some (PList [PDict r1, PDict r2, PDict r3])"
      by (simp add: profile_page_metrics citation_table_def r1(1) r2(1) r3(1))
    with r1(2) r2(2) r3(2) profile_page_articles [of soup] show ?thesis
      unfolding d by blast
  qed
  have b: "fst (get_author_profile_data nw h (PStr url)) = []
      \<and> \<not> dict_has ''articles'' (fst (get_author_profile_data nw h (PStr url)))
      \<and> \<not> dict_has ''citation_metrics'' (fst (get_author_profile_data nw h (PStr url)))"
    if "nw h url = Inl e"
    using that by (simp add: get_author_profile_data_def dict_has_def dict_get_def)
  from a b show ?thesis by blast
qed

theorem profile_detail_shape_witness:
  "let soup = Tag [] []
         [(''#gsc_prf_in'', [Tag [''Ann Lee''] [] [] [] []]),
          (''tr:nth-child(1) .gsc_rsb_std'', [Tag [''120''] [] [] [] []]),
          (''tr:nth-child(3) .gsc_rsb_std'', [Tag [''4''] [] [] [] []])] [] [];
       nw = (\<lambda>h url. if url = ''https://scholar.google.com/x1'' then Inr soup
                      else Inl RequestException)
   in fst (get_author_profile_data nw [] (PStr ''https://scholar.google.com/x1''))
        = [(''name'', PStr ''Ann Lee''), (''articles'', PList []),
           (''citation_metrics'',
            PList [PDict [(''citations'', PDict [(''all'', PStr ''120'')])], PDict [],
                   PDict [(''i_index'', PDict [(''all'', PStr ''4'')])]])]
      \<and> fst (get_author_profile_data nw [] (PStr ''https://scholar.google.com/x2'')) = []"
proof -
  let ?soup = "Tag [] []
         [(''#gsc_prf_in'', [Tag [''Ann Lee''] [] [] [] []]),
          (''tr:nth-child(1) .gsc_rsb_std'', [Tag [''120''] [] [] [] []]),
          (''tr:nth-child(3) .gsc_rsb_std'', [Tag [''4''] [] [] [] []])] [] []"
  let ?nw = "\<lambda>(h :: trace) url. if url = ''https://scholar.google.com/x1'' then Inr ?soup
                      else Inl RequestException"
  have h1: "?nw [] ''https://scholar.google.com/x1'' = Inr ?soup" by simp
  have h2: "?nw [] ''https://scholar.google.com/x2'' = Inl RequestException" by simp
  have ev: "fst (get_author_profile_data ?nw [] (PStr ''https://scholar.google.com/x1''))
        = [(''name'', PStr ''Ann Lee''), (''articles'', PList []),
           (''citation_metrics'',
            PList [PDict [(''citations'', PDict [(''all'', PStr ''120'')])], PDict [],
                   PDict [(''i_index'', PDict [(''all'', PStr ''4'')])]])]"
    by code_simp
  from profile_detail_shape
         [of ?nw "[]" "''https://scholar.google.com/x2''" ?soup RequestException] h2
  have "fst (get_author_profile_data ?nw [] (PStr ''https://scholar.google.com/x2'')) = []"
    by blast
  moreover from profile_detail_shape
         [of ?nw "[]" "''https://scholar.google.com/x1''" ?soup RequestException] h1
  have "\<exists>r1 r2 r3. dict_get (fst (get_author_profile_data ?nw []
            (PStr ''https://scholar.google.com/x1''))) ''citation_metrics''
           = Some (PList [PDict r1, PDict r2, PDict r3])"
    by blast
  ultimately show ?thesis
    using ev unfolding Let_def by simp
qed

section \<open>No empty value in an extracted record\<close>

lemma scholar_result_truthy:
  "scholar_result el = Inr r \<Longrightarrow> (k, v) \<in> set r \<Longrightarrow> py_truthy v"
  by (auto simp: scholar_result_def Let_def dest: remove_empty_truthy)

lemma scholar_results_truthy:
  "r \<in> set (scholar_results els) \<Longrightarrow> (k, v) \<in> set r \<Longrightarrow> py_truthy v"
proof (induction els)
  case Nil
  then show ?case by simp
next
  case (Cons el els)
  then show ?case
    by (cases "scholar_result el") (auto dest: scholar_result_truthy)
qed

lemma scholar_profile_truthy:
  "scholar_profile el = Inr p \<Longrightarrow> (k, v) \<in> set p \<Longrightarrow> py_truthy v"
  by (auto simp: scholar_profile_def Let_def split: sum.splits dest: remove_empty_truthy)

lemma scholar_profiles_truthy:
  "scholar_profiles els = Inr ps \<Longrightarrow> p \<in> set ps \<Longrightarrow> (k, v) \<in> set p \<Longrightarrow> py_truthy v"
proof -
  assume ps: "scholar_profiles els = Inr ps" and p: "p \<in> set ps" and kv: "(k, v) \<in> set p"
  from scholar_profiles_blocks [OF ps] p obtain el where "scholar_profile el = Inr p"
    by (auto simp: list_all2_conv_all_nth in_set_conv_nth)
  from scholar_profile_truthy [OF this kv] show ?thesis .
qed

lemma article_entry_truthy: "(k, v) \<in> set (article_entry el) \<Longrightarrow> py_truthy v"
  by (auto simp: article_entry_def Let_def dest: remove_empty_truthy)

text \<open>
  Claim C4, as the code has it. No key of a SearchResult, of a ProfileCandidate or of an
  article entry of a ProfileDetail maps to an empty value: these three records are
  filtered before they are returned, so a field whose value is absent or empty is
  omitted. The ProfileDetail itself always has its keys \<^verbatim>\<open>articles\<close> and
  \<^verbatim>\<open>citation_metrics\<close>, also when the list of articles is empty.
\<close>

theorem extracted_values_not_empty:
  "(\<forall>r \<in> set (fst (get_scholar_data nw h query)). \<forall>(k, v) \<in> set r. py_truthy v)
   \<and> (\<forall>c \<in> set (fst (get_scholar_profiles nw h author)). \<forall>(k, v) \<in> set c. py_truthy v)
   \<and> (\<forall>(k, v) \<in> set (article_entry el). py_truthy v)
   \<and> (nw h url = Inr soup \<longrightarrow>
        dict_get (fst (get_author_profile_data nw h (PStr url))) ''articles''
          = Some (PList (map (\<lambda>el. PDict (article_entry el))
                           (select soup ''#gsc_a_b .gsc_a_t'')))
        \<and> dict_has ''citation_metrics'' (fst (get_author_profile_data nw h (PStr url))))"
proof -
  have a: "\<forall>r \<in> set (fst (get_scholar_data nw h query)). \<forall>(k, v) \<in> set r. py_truthy v"
    by (auto simp: get_scholar_data_def Let_def split: sum.splits dest: scholar_results_truthy)
  have b: "\<forall>c \<in> set (fst (get_scholar_profiles nw h author)). \<forall>(k, v) \<in> set c. py_truthy v"
    by (auto simp: get_scholar_profiles_def Let_def split: sum.splits
          dest: scholar_profiles_truthy)
  have c: "\<forall>(k, v) \<in> set (article_entry el). py_truthy v"
    by (auto dest: article_entry_truthy)
  have d: "dict_get (fst (get_author_profile_data nw h (PStr url))) ''articles''
          = Some (PList (map (\<lambda>el. PDict (article_entry el))
                           (select soup ''#gsc_a_b .gsc_a_t'')))
        \<and> dict_has ''citation_metrics'' (fst (get_author_profile_data nw h (PStr url)))"
    if "nw h url = Inr soup"
    using that
    by (simp add: get_author_profile_data_def profile_page_articles profile_page_metrics
          dict_has_def)
  from a b c d show ?thesis by blast
qed

theorem extracted_values_not_empty_witness:
  "let block = Tag [] []
         [(''.gs_rt'', [Tag [''Paper''] [] [] [(''a'', Tag [''Paper''] [(''href'', ''/p'')] [] [] [])] []]),
          (''.gs_a'', [Tag [] [] [] [] []]),
          (''.gs_ai_name'', [Tag [''Ann Lee''] [] [] [] []]),
          (''.gs_ai_eml'', [Tag [[]] [] [] [] []]),
          (''.gsc_a_at'', [Tag [''Work''] [] [] [] []]),
          (''.gs_gray'', [Tag [] [] [] [] [], Tag [''Venue''] [] [] [] []])] [] [];
       soup = Tag [] [] [(''.gs_r'', [block]), (''.gsc_1usr'', [block]),
                         (''#gsc_a_b .gsc_a_t'', [block])] [] [];
       nw = (\<lambda>h url. Inr soup)
   in fst (get_scholar_data nw [] ''q'') = [[(''title'', PStr ''Paper''), (''title_link'', PStr ''/p'')]]
      \<and> py_truthy (PStr ''Paper'') \<and> py_truthy (PStr ''/p'')
      \<and> fst (get_scholar_profiles nw [] ''Ann Lee'') = [[(''name'', PStr ''Ann Lee'')]]
      \<and> py_truthy (PStr ''Ann Lee'')
      \<and> article_entry block = [(''title'', PStr ''Work''), (''publication'', PStr ''Venue'')]
      \<and> py_truthy (PStr ''Work'') \<and> py_truthy (PStr ''Venue'')
      \<and> dict_get (fst (get_author_profile_data nw [] (PStr ''u''))) ''articles''
          = Some (PList [PDict [(''title'', PStr ''Work''), (''publication'', PStr ''Venue'')]])"
proof -
  let ?block = "Tag [] []
         [(''.gs_rt'', [Tag [''Paper''] [] [] [(''a'', Tag [''Paper''] [(''href'', ''/p'')] [] [] [])] []]),
          (''.gs_a'', [Tag [] [] [] [] []]),
          (''.gs_ai_name'', [Tag [''Ann Lee''] [] [] [] []]),
          (''.gs_ai_eml'', [Tag [[]] [] [] [] []]),
          (''.gsc_a_at'', [Tag [''Work''] [] [] [] []]),
          (''.gs_gray'', [Tag [] [] [] [] [], Tag [''Venue''] [] [] [] []])] [] []"
  let ?soup = "Tag [] [] [(''.gs_r'', [?block]), (''.gsc_1usr'', [?block]),
                         (''#gsc_a_b .gsc_a_t'', [?block])] [] []"
  let ?nw = "\<lambda>(h :: trace) (url :: string). (Inr ?soup :: exn + tag)"
  have e1: "fst (get_scholar_data ?nw [] ''q'')
              = [[(''title'', PStr ''Paper''), (''title_link'', PStr ''/p'')]]"
    by code_simp
  have e2: "fst (get_scholar_profiles ?nw [] ''Ann Lee'') = [[(''name'', PStr ''Ann Lee'')]]"
    by code_simp
  have e3: "article_entry ?block = [(''title'', PStr ''Work''), (''publication'', PStr ''Venue'')]"
    by code_simp
  have e4: "select ?soup ''#gsc_a_b .gsc_a_t'' = [?block]"
    by code_simp
  note t = extracted_values_not_empty [of ?nw "[]" "''q''" "''Ann Lee''" ?block "''u''" ?soup]
  from t have "\<forall>r \<in> set (fst (get_scholar_data ?nw [] ''q'')). \<forall>(k, v) \<in> set r. py_truthy v"
    by blast
  then have t1: "py_truthy (PStr ''Paper'') \<and> py_truthy (PStr ''/p'')"
    unfolding e1 by simp
  from t have "\<forall>c \<in> set (fst (get_scholar_profiles ?nw [] ''Ann Lee'')). \<forall>(k, v) \<in> set c. py_truthy v"
    by blast
  then have t2: "py_truthy (PStr ''Ann Lee'')"
    unfolding e2 by simp
  from t have "\<forall>(k, v) \<in> set (article_entry ?block). py_truthy v"
    by blast
  then have t3: "py_truthy (PStr ''Work'') \<and> py_truthy (PStr ''Venue'')"
    unfolding e3 by simp
  from t have t4: "dict_get (fst (get_author_profile_data ?nw [] (PStr ''u''))) ''articles''
          = Some (PList (map (\<lambda>el. PDict (article_entry el))
                           (select ?soup ''#gsc_a_b .gsc_a_t'')))"
    by simp
  show ?thesis
    unfolding Let_def using e1 e2 e3 t1 t2 t3 t4 [unfolded e4]
    by (simp only: list.map e3 simp_thms)
qed

text \<open>
  The claim as the spec states it fails for the ProfileDetail: on a profile page whose
  name element has no text and which lists no article, the detail has the key
  \<^verbatim>\<open>name\<close> with the empty string and the key \<^verbatim>\<open>articles\<close> with the empty list.
\<close>

theorem profile_detail_has_empty_values:
  "fst (get_author_profile_data
          (\<lambda>h url. Inr (Tag [] [] [(''#gsc_prf_in'', [Tag [] [] [] [] []])] [] []))
          [] (PStr ''https://scholar.google.com/x1''))
     = [(''name'', PStr []), (''articles'', PList []),
        (''citation_metrics'', PList [PDict [], PDict [], PDict []])]
   \<and> \<not> py_truthy (PStr [])
   \<and> \<not> py_truthy (PList [])"
  by code_simp

section \<open>Each field depends on its own selector\<close>

lemma result_displayed_link_other:
  "k \<noteq> ''displayed_link'' \<Longrightarrow> map_of (result_displayed_link el d) k = map_of d k"
  by (simp add: map_of_result_displayed_link split: option.splits)

lemma result_snippet_other:
  "k \<noteq> ''snippet'' \<Longrightarrow> map_of (result_snippet el d) k = map_of d k"
  by (simp add: map_of_result_snippet split: option.splits)

lemma result_cited_other:
  "k \<notin> {''cited_link'', ''cited_by_count''} \<Longrightarrow> map_of (result_cited el d) k = map_of d k"
  by (simp add: map_of_result_cited split: option.splits)

lemma result_versions_other:
  "k \<notin> {''versions_link'', ''versions_count''} \<Longrightarrow>
   map_of (result_versions el d) k = map_of d k"
  by (simp add: map_of_result_versions split: option.splits)

lemma profile_position_other:
  "k \<noteq> ''position'' \<Longrightarrow> map_of (profile_position el d) k = map_of d k"
  by (simp add: map_of_profile_position split: option.splits)

lemma profile_email_other:
  "k \<noteq> ''email'' \<Longrightarrow> map_of (profile_email el d) k = map_of d k"
  by (simp add: map_of_profile_email split: option.splits)

lemma profile_departments_other:
  "k \<noteq> ''departments'' \<Longrightarrow> map_of (profile_departments el d) k = map_of d k"
  by (simp add: map_of_profile_departments split: option.splits)

lemma profile_cited_other:
  "profile_cited el d = Inr d' \<Longrightarrow> k \<noteq> ''cited_by_count'' \<Longrightarrow> map_of d' k = map_of d k"
  by (simp add: map_of_profile_cited split: option.splits)

lemma result_displayed_link_own:
  "map_of (result_displayed_link el d) ''displayed_link'' =
     (case select_one el ''.gs_a'' of
        None \<Rightarrow> map_of d ''displayed_link''
      | Some t \<Rightarrow> Some (PStr (get_text t)))"
  by (simp add: map_of_result_displayed_link split: option.splits)

lemma result_snippet_own:
  "map_of (result_snippet el d) ''snippet'' =
     (case select_one el ''.gs_rs'' of
        None \<Rightarrow> map_of d ''snippet''
      | Some t \<Rightarrow> Some (PStr (get_text_strip t)))"
  by (simp add: map_of_result_snippet split: option.splits)

lemma result_cited_own:
  "map_of (result_cited el d) ''cited_by_count'' =
     (case select_one el ''.gs_nph+ a'' of
        None \<Rightarrow> map_of d ''cited_by_count''
      | Some t \<Rightarrow> Some (PStr (get_text t)))"
  "map_of (result_cited el d) ''cited_link'' =
     (case select_one el ''.gs_nph+ a'' of
        None \<Rightarrow> map_of d ''cited_link''
      | Some t \<Rightarrow> Some (PStr (''https://scholar.google.com'' @ attr_get t ''href'' [])))"
  by (simp_all add: map_of_result_cited split: option.splits)

lemma result_versions_own:
  "map_of (result_versions el d) ''versions_count'' =
     (case select_one el ''a ~ a'' of
        None \<Rightarrow> map_of d ''versions_count''
      | Some v0 \<Rightarrow>
          (case find_next_sibling v0 ''a'' of
             None \<Rightarrow> map_of d ''versions_count''
           | Some t \<Rightarrow> Some (PStr (get_text t))))"
  "map_of (result_versions el d) ''versions_link'' =
     (case select_one el ''a ~ a'' of
        None \<Rightarrow> map_of d ''versions_link''
      | Some v0 \<Rightarrow>
          (case find_next_sibling v0 ''a'' of
             None \<Rightarrow> map_of d ''versions_link''
           | Some t \<Rightarrow>
               Some (PStr (''https://scholar.google.com'' @ attr_get t ''href'' []))))"
  by (simp_all add: map_of_result_versions split: option.splits)

lemma profile_position_own:
  "map_of (profile_position el d) ''position'' =
     (case select_one el ''.gs_ai_aff'' of
        None \<Rightarrow> map_of d ''position''
      | Some t \<Rightarrow> Some (PStr (get_text t)))"
  by (simp add: map_of_profile_position split: option.splits)

lemma profile_email_own:
  "map_of (profile_email el d) ''email'' =
     (case select_one el ''.gs_ai_eml'' of
        None \<Rightarrow> map_of d ''email''
      | Some t \<Rightarrow> Some (PStr (get_text t)))"
  by (simp add: map_of_profile_email split: option.splits)

lemma profile_departments_own:
  "map_of (profile_departments el d) ''departments'' =
     (case select_one el ''.gs_ai_int'' of
        None \<Rightarrow> map_of d ''departments''
      | Some t \<Rightarrow> Some (PStr (get_text t)))"
  by (simp add: map_of_profile_departments split: option.splits)

lemma profile_cited_own:
  "profile_cited el d = Inr d' \<Longrightarrow>
   map_of d' ''cited_by_count'' =
     (case select_one el ''.gs_ai_cby'' of
        None \<Rightarrow> map_of d ''cited_by_count''
      | Some t \<Rightarrow> Some (PStr (last (split_ws (get_text t)))))"
  by (simp add: map_of_profile_cited split: option.splits)

lemmas own_steps =
  result_title_title result_title_link result_title_id result_displayed_link_own
  result_snippet_own result_cited_own result_versions_own
  profile_name_name profile_name_link profile_position_own profile_email_own
  profile_departments_own

lemmas other_steps =
  result_title_other result_displayed_link_other result_snippet_other result_cited_other
  result_versions_other profile_name_other profile_position_other profile_email_other
  profile_departments_other

lemma scholar_result_total:
  "scholar_result el =
     Inr (remove_empty (result_versions el (result_cited el (result_snippet el
            (result_displayed_link el (result_title el []))))))"
  by (simp add: scholar_result_def Let_def)

lemma scholar_result_lookup:
  assumes "scholar_result el = Inr r"
  shows "dict_get r k =
           kept (map_of (result_versions el (result_cited el (result_snippet el
                   (result_displayed_link el (result_title el []))))) k)"
proof -
  let ?d = "result_versions el (result_cited el (result_snippet el
              (result_displayed_link el (result_title el []))))"
  have "distinct (map fst ?d)"
    by (intro distinct_steps) simp
  from map_of_remove_empty [OF this, of k] assms show ?thesis
    by (simp add: scholar_result_total dict_get_def kept_def)
qed

lemma scholar_profile_lookup:
  assumes "scholar_profile el = Inr p"
  shows "\<exists>d'. profile_cited el (profile_departments el (profile_email el
                  (profile_position el (profile_name el [])))) = Inr d'
              \<and> dict_get p k = kept (map_of d' k)"
proof -
  let ?d = "profile_departments el (profile_email el (profile_position el (profile_name el [])))"
  from assms obtain d' where c: "profile_cited el ?d = Inr d'" and p: "p = remove_empty d'"
    by (auto simp: scholar_profile_def Let_def split: sum.splits)
  have "distinct (map fst ?d)"
    by (intro distinct_steps) simp
  from distinct_profile_cited [OF this c] have "distinct (map fst d')" .
  from map_of_remove_empty [OF this, of k] c show ?thesis
    by (simp add: p dict_get_def kept_def)
qed

lemma search_field_values:
  assumes "scholar_result el = Inr r"
  shows "dict_get r ''title'' =
           kept (case select_one el ''.gs_rt'' of None \<Rightarrow> None
                 | Some t \<Rightarrow> Some (PStr (get_text t)))"
    and "dict_get r ''title_link'' =
           kept (case select_one el ''.gs_rt'' of None \<Rightarrow> None
                 | Some t \<Rightarrow>
                     (case find_tag t ''a'' of None \<Rightarrow> None
                      | Some a \<Rightarrow>
                          (case map_of (tag_attrs a) ''href'' of None \<Rightarrow> None
                           | Some href \<Rightarrow> Some (PStr href))))"
    and "dict_get r ''id'' =
           kept (case select_one el ''.gs_rt'' of None \<Rightarrow> None
                 | Some t \<Rightarrow>
                     (case find_tag t ''a'' of None \<Rightarrow> None
                      | Some a \<Rightarrow>
                          (case map_of (tag_attrs a) ''href'' of None \<Rightarrow> None
                           | Some href \<Rightarrow> Some (PStr (attr_get a ''id'' [])))))"
    and "dict_get r ''displayed_link'' =
           kept (case select_one el ''.gs_a'' of None \<Rightarrow> None
                 | Some t \<Rightarrow> Some (PStr (get_text t)))"
    and "dict_get r ''snippet'' =
           kept (case select_one el ''.gs_rs'' of None \<Rightarrow> None
                 | Some t \<Rightarrow> Some (PStr (get_text_strip t)))"
    and "dict_get r ''cited_by_count'' =
           kept (case select_one el ''.gs_nph+ a'' of None \<Rightarrow> None
                 | Some t \<Rightarrow> Some (PStr (get_text t)))"
    and "dict_get r ''cited_link'' =
           kept (case select_one el ''.gs_nph+ a'' of None \<Rightarrow> None
                 | Some t \<Rightarrow>
                     Some (PStr (''https://scholar.google.com'' @ attr_get t ''href'' [])))"
    and "dict_get r ''versions_count'' =
           kept (case select_one el ''a ~ a'' of None \<Rightarrow> None
                 | Some v0 \<Rightarrow>
                     (case find_next_sibling v0 ''a'' of None \<Rightarrow> None
                      | Some t \<Rightarrow> Some (PStr (get_text t))))"
    and "dict_get r ''versions_link'' =
           kept (case select_one el ''a ~ a'' of None \<Rightarrow> None
                 | Some v0 \<Rightarrow>
                     (case find_next_sibling v0 ''a'' of None \<Rightarrow> None
                      | Some t \<Rightarrow>
                          Some (PStr (''https://scholar.google.com'' @ attr_get t ''href'' []))))"
  unfolding scholar_result_lookup [OF assms]
  by (simp_all add: other_steps own_steps cong: option.case_cong)

lemma profile_field_values:
  assumes "scholar_profile el = Inr p"
  shows "dict_get p ''name'' =
           kept (case select_one el ''.gs_ai_name'' of None \<Rightarrow> None
                 | Some t \<Rightarrow> Some (PStr (get_text t)))"
    and "dict_get p ''name_link'' =
           kept (case select_one el ''.gs_ai_name'' of None \<Rightarrow> None
                 | Some t \<Rightarrow>
                     (case find_tag t ''a'' of None \<Rightarrow> None
                      | Some a \<Rightarrow>
                          (case map_of (tag_attrs a) ''href'' of None \<Rightarrow> None
                           | Some href \<Rightarrow>
                               Some (PStr (''https://scholar.google.com'' @ href)))))"
    and "dict_get p ''position'' =
           kept (case select_one el ''.gs_ai_aff'' of None \<Rightarrow> None
                 | Some t \<Rightarrow> Some (PStr (get_text t)))"
    and "dict_get p ''email'' =
           kept (case select_one el ''.gs_ai_eml'' of None \<Rightarrow> None
                 | Some t \<Rightarrow> Some (PStr (get_text t)))"
    and "dict_get p ''departments'' =
           kept (case select_one el ''.gs_ai_int'' of None \<Rightarrow> None
                 | Some t \<Rightarrow> Some (PStr (get_text t)))"
    and "dict_get p ''cited_by_count'' =
           kept (case select_one el ''.gs_ai_cby'' of None \<Rightarrow> None
                 | Some t \<Rightarrow> Some (PStr (last (split_ws (get_text t)))))"
proof -
  let ?d = "profile_departments el (profile_email el (profile_position el (profile_name el [])))"
  have l: "\<exists>d'. profile_cited el ?d = Inr d' \<and> dict_get p k = kept (map_of d' k)" for k
    by (rule scholar_profile_lookup [OF assms])
  then obtain d' where c: "profile_cited el ?d = Inr d'" by blast
  from l c have k: "dict_get p k = kept (map_of d' k)" for k by auto
  note o = profile_cited_other [OF c]
  show "dict_get p ''name'' =
           kept (case select_one el ''.gs_ai_name'' of None \<Rightarrow> None
                 | Some t \<Rightarrow> Some (PStr (get_text t)))"
    by (simp add: k o other_steps own_steps cong: option.case_cong)
  show "dict_get p ''name_link'' =
           kept (case select_one el ''.gs_ai_name'' of None \<Rightarrow> None
                 | Some t \<Rightarrow>
                     (case find_tag t ''a'' of None \<Rightarrow> None
                      | Some a \<Rightarrow>
                          (case map_of (tag_attrs a) ''href'' of None \<Rightarrow> None
                           | Some href \<Rightarrow>
                               Some (PStr (''https://scholar.google.com'' @ href)))))"
    by (simp add: k o other_steps own_steps cong: option.case_cong)
  show "dict_get p ''position'' =
           kept (case select_one el ''.gs_ai_aff'' of None \<Rightarrow> None
                 | Some t \<Rightarrow> Some (PStr (get_text t)))"
    by (simp add: k o other_steps own_steps cong: option.case_cong)
  show "dict_get p ''email'' =
           kept (case select_one el ''.gs_ai_eml'' of None \<Rightarrow> None
                 | Some t \<Rightarrow> Some (PStr (get_text t)))"
    by (simp add: k o other_steps own_steps cong: option.case_cong)
  show "dict_get p ''departments'' =
           kept (case select_one el ''.gs_ai_int'' of None \<Rightarrow> None
                 | Some t \<Rightarrow> Some (PStr (get_text t)))"
    by (simp add: k o other_steps own_steps cong: option.case_cong)
  show "dict_get p ''cited_by_count'' =
           kept (case select_one el ''.gs_ai_cby'' of None \<Rightarrow> None
                 | Some t \<Rightarrow> Some (PStr (last (split_ws (get_text t)))))"
    by (simp add: k profile_cited_own [OF c] other_steps own_steps cong: option.case_cong)
qed

lemma kept_None: "kept None = None"
  by (simp add: kept_def)

text \<open>No key beyond the fields of the rules is ever set.\<close>

lemma search_no_other_field:
  assumes "scholar_result el = Inr r" and "k \<notin> set (map fst search_rules)"
  shows "dict_get r k = None"
  unfolding scholar_result_lookup [OF assms(1)]
  using assms(2) by (simp add: search_rules_def other_steps kept_None)

lemma profile_no_other_field:
  assumes "scholar_profile el = Inr p" and "k \<notin> set (map fst profile_rules)"
  shows "dict_get p k = None"
proof -
  let ?d = "profile_departments el (profile_email el (profile_position el (profile_name el [])))"
  from scholar_profile_lookup [OF assms(1), of k]
  obtain d' where c: "profile_cited el ?d = Inr d'" and k: "dict_get p k = kept (map_of d' k)"
    by blast
  from assms(2) have n: "k \<noteq> ''cited_by_count''" by (auto simp: profile_rules_def)
  from assms(2) show ?thesis
    by (simp add: k profile_cited_other [OF c n] profile_rules_def other_steps kept_None)
qed

text \<open>Two blocks that answer the selector of a field alike give the field alike,
  whatever the other selectors find or miss.\<close>

lemma fields_independent:
  "(\<exists>r r'. scholar_result el = Inr r \<and> scholar_result el' = Inr r'
       \<and> (\<forall>(f, s) \<in> set search_rules.
             (select_one el s = None \<longrightarrow> dict_get r f = None)
             \<and> (select_one el s = select_one el' s \<longrightarrow> dict_get r f = dict_get r' f)))
   \<and> (scholar_profile el = Inr p \<and> scholar_profile el' = Inr p' \<longrightarrow>
       (\<forall>(f, s) \<in> set profile_rules.
             (select_one el s = None \<longrightarrow> dict_get p f = None)
             \<and> (select_one el s = select_one el' s \<longrightarrow> dict_get p f = dict_get p' f)))"
proof -
  obtain r r' where r: "scholar_result el = Inr r" and r': "scholar_result el' = Inr r'"
    by (simp add: scholar_result_total)
  have a: "\<forall>(f, s) \<in> set search_rules.
             (select_one el s = None \<longrightarrow> dict_get r f = None)
             \<and> (select_one el s = select_one el' s \<longrightarrow> dict_get r f = dict_get r' f)"
    by (simp add: search_rules_def search_field_values [OF r] search_field_values [OF r']
          kept_None)
  have b: "\<forall>(f, s) \<in> set profile_rules.
             (select_one el s = None \<longrightarrow> dict_get p f = None)
             \<and> (select_one el s = select_one el' s \<longrightarrow> dict_get p f = dict_get p' f)"
    if p: "scholar_profile el = Inr p" and p': "scholar_profile el' = Inr p'"
    by (simp add: profile_rules_def profile_field_values [OF p] profile_field_values [OF p']
          kept_None)
  have c: "\<exists>r r'. scholar_result el = Inr r \<and> scholar_result el' = Inr r'
       \<and> (\<forall>(f, s) \<in> set search_rules.
             (select_one el s = None \<longrightarrow> dict_get r f = None)
             \<and> (select_one el s = select_one el' s \<longrightarrow> dict_get r f = dict_get r' f))"
    using r r' a by (intro exI [of _ r] exI [of _ r'] conjI)
  from b have d: "scholar_profile el = Inr p \<and> scholar_profile el' = Inr p' \<longrightarrow>
       (\<forall>(f, s) \<in> set profile_rules.
             (select_one el s = None \<longrightarrow> dict_get p f = None)
             \<and> (select_one el s = select_one el' s \<longrightarrow> dict_get p f = dict_get p' f))"
    by (intro impI) (elim conjE)
  from c d show ?thesis by (rule conjI)
qed

text \<open>
  Claim C2, as the code has it. Extracting a search result from a block never raises,
  and every field of the result is decided by its own selector alone, whatever the
  other selectors find or miss. The field is there exactly when its selector finds an
  element, the element has what the field is read from, and the value is not empty; it
  then carries that value (\<open>kept\<close> passes a value on unless it is empty):
  \<^item> \<^verbatim>\<open>title\<close>, \<^verbatim>\<open>displayed_link\<close> and \<^verbatim>\<open>cited_by_count\<close> are the text of the
    element found, \<^verbatim>\<open>snippet\<close> its stripped text;
  \<^item> \<^verbatim>\<open>title_link\<close> and \<^verbatim>\<open>id\<close> are read from the link inside the title element and
    are both omitted when there is no link or the link has no \<^verbatim>\<open>href\<close>;
  \<^item> \<^verbatim>\<open>cited_link\<close> is the site address followed by the \<^verbatim>\<open>href\<close> of the element,
    or by nothing when the attribute is missing;
  \<^item> \<^verbatim>\<open>versions_count\<close> and \<^verbatim>\<open>versions_link\<close> are read from the link that follows
    the first match and are omitted when there is none;
  \<^item> no other key is set.

  The same holds for the fields of a profile candidate on every block whose extraction
  does not raise.
\<close>

theorem fields_decided_by_own_selector:
  "(\<exists>r. scholar_result el = Inr r
      \<and> dict_get r ''title'' =
          kept (case select_one el ''.gs_rt'' of None \<Rightarrow> None
                | Some t \<Rightarrow> Some (PStr (get_text t)))
      \<and> dict_get r ''title_link'' =
          kept (case select_one el ''.gs_rt'' of None \<Rightarrow> None
                | Some t \<Rightarrow>
                    (case find_tag t ''a'' of None \<Rightarrow> None
                     | Some a \<Rightarrow>
                         (case map_of (tag_attrs a) ''href'' of None \<Rightarrow> None
                          | Some href \<Rightarrow> Some (PStr href))))
      \<and> dict_get r ''id'' =
          kept (case select_one el ''.gs_rt'' of None \<Rightarrow> None
                | Some t \<Rightarrow>
                    (case find_tag t ''a'' of None \<Rightarrow> None
                     | Some a \<Rightarrow>
                         (case map_of (tag_attrs a) ''href'' of None \<Rightarrow> None
                          | Some href \<Rightarrow> Some (PStr (attr_get a ''id'' [])))))
      \<and> dict_get r ''displayed_link'' =
          kept (case select_one el ''.gs_a'' of None \<Rightarrow> None
                | Some t \<Rightarrow> Some (PStr (get_text t)))
      \<and> dict_get r ''snippet'' =
          kept (case select_one el ''.gs_rs'' of None \<Rightarrow> None
                | Some t \<Rightarrow> Some (PStr (get_text_strip t)))
      \<and> dict_get r ''cited_by_count'' =
          kept (case select_one el ''.gs_nph+ a'' of None \<Rightarrow> None
                | Some t \<Rightarrow> Some (PStr (get_text t)))
      \<and> dict_get r ''cited_link'' =
          kept (case select_one el ''.gs_nph+ a'' of None \<Rightarrow> None
                | Some t \<Rightarrow>
                    Some (PStr (''https://scholar.google.com'' @ attr_get t ''href'' [])))
      \<and> dict_get r ''versions_count'' =
          kept (case select_one el ''a ~ a'' of None \<Rightarrow> None
                | Some v0 \<Rightarrow>
                    (case find_next_sibling v0 ''a'' of None \<Rightarrow> None
                     | Some t \<Rightarrow> Some (PStr (get_text t))))
      \<and> dict_get r ''versions_link'' =
          kept (case select_one el ''a ~ a'' of None \<Rightarrow> None
                | Some v0 \<Rightarrow>
                    (case find_next_sibling v0 ''a'' of None \<Rightarrow> None
                     | Some t \<Rightarrow>
                         Some (PStr (''https://scholar.google.com'' @ attr_get t ''href'' []))))
      \<and> (\<forall>k. k \<notin> set (map fst search_rules) \<longrightarrow> dict_get r k = None))
   \<and> (scholar_profile el = Inr p \<longrightarrow>
        dict_get p ''name'' =
          kept (case select_one el ''.gs_ai_name'' of None \<Rightarrow> None
                | Some t \<Rightarrow> Some (PStr (get_text t)))
      \<and> dict_get p ''name_link'' =
          kept (case select_one el ''.gs_ai_name'' of None \<Rightarrow> None
                | Some t \<Rightarrow>
                    (case find_tag t ''a'' of None \<Rightarrow> None
                     | Some a \<Rightarrow>
                         (case map_of (tag_attrs a) ''href'' of None \<Rightarrow> None
                          | Some href \<Rightarrow>
                              Some (PStr (''https://scholar.google.com'' @ href)))))
      \<and> dict_get p ''position'' =
          kept (case select_one el ''.gs_ai_aff'' of None \<Rightarrow> None
                | Some t \<Rightarrow> Some (PStr (get_text t)))
      \<and> dict_get p ''email'' =
          kept (case select_one el ''.gs_ai_eml'' of None \<Rightarrow> None
                | Some t \<Rightarrow> Some (PStr (get_text t)))
      \<and> dict_get p ''departments'' =
          kept (case select_one el ''.gs_ai_int'' of None \<Rightarrow> None
                | Some t \<Rightarrow> Some (PStr (get_text t)))
      \<and> dict_get p ''cited_by_count'' =
          kept (case select_one el ''.gs_ai_cby'' of None \<Rightarrow> None
                | Some t \<Rightarrow> Some (PStr (last (split_ws (get_text t)))))
      \<and> (\<forall>k. k \<notin> set (map fst profile_rules) \<longrightarrow> dict_get p k = None))"
proof -
  obtain r where r: "scholar_result el = Inr r"
    by (simp add: scholar_result_total)
  have o: "\<forall>k. k \<notin> set (map fst search_rules) \<longrightarrow> dict_get r k = None"
    using search_no_other_field [OF r] by blast
  have a: "\<exists>r. scholar_result el = Inr r
      \<and> dict_get r ''title'' =
          kept (case select_one el ''.gs_rt'' of None \<Rightarrow> None
                | Some t \<Rightarrow> Some (PStr (get_text t)))
      \<and> dict_get r ''title_link'' =
          kept (case select_one el ''.gs_rt'' of None \<Rightarrow> None
                | Some t \<Rightarrow>
                    (case find_tag t ''a'' of None \<Rightarrow> None
                     | Some a \<Rightarrow>
                         (case map_of (tag_attrs a) ''href'' of None \<Rightarrow> None
                          | Some href \<Rightarrow> Some (PStr href))))
      \<and> dict_get r ''id'' =
          kept (case select_one el ''.gs_rt'' of None \<Rightarrow> None
                | Some t \<Rightarrow>
                    (case find_tag t ''a'' of None \<Rightarrow> None
                     | Some a \<Rightarrow>
                         (case map_of (tag_attrs a) ''href'' of None \<Rightarrow> None
                          | Some href \<Rightarrow> Some (PStr (attr_get a ''id'' [])))))
      \<and> dict_get r ''displayed_link'' =
          kept (case select_one el ''.gs_a'' of None \<Rightarrow> None
                | Some t \<Rightarrow> Some (PStr (get_text t)))
      \<and> dict_get r ''snippet'' =
          kept (case select_one el ''.gs_rs'' of None \<Rightarrow> None
                | Some t \<Rightarrow> Some (PStr (get_text_strip t)))
      \<and> dict_get r ''cited_by_count'' =
          kept (case select_one el ''.gs_nph+ a'' of None \<Rightarrow> None
                | Some t \<Rightarrow> Some (PStr (get_text t)))
      \<and> dict_get r ''cited_link'' =
          kept (case select_one el ''.gs_nph+ a'' of None \<Rightarrow> None
                | Some t \<Rightarrow>
                    Some (PStr (''https://scholar.google.com'' @ attr_get t ''href'' [])))
      \<and> dict_get r ''versions_count'' =
          kept (case select_one el ''a ~ a'' of None \<Rightarrow> None
                | Some v0 \<Rightarrow>
                    (case find_next_sibling v0 ''a'' of None \<Rightarrow> None
                     | Some t \<Rightarrow> Some (PStr (get_text t))))
      \<and> dict_get r ''versions_link'' =
          kept (case select_one el ''a ~ a'' of None \<Rightarrow> None
                | Some v0 \<Rightarrow>
                    (case find_next_sibling v0 ''a'' of None \<Rightarrow> None
                     | Some t \<Rightarrow>
                         Some (PStr (''https://scholar.google.com'' @ attr_get t ''href'' []))))
      \<and> (\<forall>k. k \<notin> set (map fst search_rules) \<longrightarrow> dict_get r k = None)"
    using r search_field_values [OF r] o by (intro exI [of _ r] conjI)
  have b: "dict_get p ''name'' =
          kept (case select_one el ''.gs_ai_name'' of None \<Rightarrow> None
                | Some t \<Rightarrow> Some (PStr (get_text t)))
      \<and> dict_get p ''name_link'' =
          kept (case select_one el ''.gs_ai_name'' of None \<Rightarrow> None
                | Some t \<Rightarrow>
                    (case find_tag t ''a'' of None \<Rightarrow> None
                     | Some a \<Rightarrow>
                         (case map_of (tag_attrs a) ''href'' of None \<Rightarrow> None
                          | Some href \<Rightarrow>
                              Some (PStr (''https://scholar.google.com'' @ href)))))
      \<and> dict_get p ''position'' =
          kept (case select_one el ''.gs_ai_aff'' of None \<Rightarrow> None
                | Some t \<Rightarrow> Some (PStr (get_text t)))
      \<and> dict_get p ''email'' =
          kept (case select_one el ''.gs_ai_eml'' of None \<Rightarrow> None
                | Some t \<Rightarrow> Some (PStr (get_text t)))
      \<and> dict_get p ''departments'' =
          kept (case select_one el ''.gs_ai_int'' of None \<Rightarrow> None
                | Some t \<Rightarrow> Some (PStr (get_text t)))
      \<and> dict_get p ''cited_by_count'' =
          kept (case select_one el ''.gs_ai_cby'' of None \<Rightarrow> None
                | Some t \<Rightarrow> Some (PStr (last (split_ws (get_text t)))))
      \<and> (\<forall>k. k \<notin> set (map fst profile_rules) \<longrightarrow> dict_get p k = None)"
    if p: "scholar_profile el = Inr p"
  proof -
    have o': "\<forall>k. k \<notin> set (map fst profile_rules) \<longrightarrow> dict_get p k = None"
      using profile_no_other_field [OF p] by blast
    from profile_field_values [OF p] o' show ?thesis by (intro conjI)
  qed
  then have b': "scholar_profile el = Inr p \<longrightarrow>
        dict_get p ''name'' =
          kept (case select_one el ''.gs_ai_name'' of None \<Rightarrow> None
                | Some t \<Rightarrow> Some (PStr (get_text t)))
      \<and> dict_get p ''name_link'' =
          kept (case select_one el ''.gs_ai_name'' of None \<Rightarrow> None
                | Some t \<Rightarrow>
                    (case find_tag t ''a'' of None \<Rightarrow> None
                     | Some a \<Rightarrow>
                         (case map_of (tag_attrs a) ''href'' of None \<Rightarrow> None
                          | Some href \<Rightarrow>
                              Some (PStr (''https://scholar.google.com'' @ href)))))
      \<and> dict_get p ''position'' =
          kept (case select_one el ''.gs_ai_aff'' of None \<Rightarrow> None
                | Some t \<Rightarrow> Some (PStr (get_text t)))
      \<and> dict_get p ''email'' =
          kept (case select_one el ''.gs_ai_eml'' of None \<Rightarrow> None
                | Some t \<Rightarrow> Some (PStr (get_text t)))
      \<and> dict_get p ''departments'' =
          kept (case select_one el ''.gs_ai_int'' of None \<Rightarrow> None
                | Some t \<Rightarrow> Some (PStr (get_text t)))
      \<and> dict_get p ''cited_by_count'' =
          kept (case select_one el ''.gs_ai_cby'' of None \<Rightarrow> None
                | Some t \<Rightarrow> Some (PStr (last (split_ws (get_text t)))))
      \<and> (\<forall>k. k \<notin> set (map fst profile_rules) \<longrightarrow> dict_get p k = None)"
    by (rule impI)
  from a b' show ?thesis by (rule conjI)
qed

theorem fields_decided_by_own_selector_witness:
  "let el = Tag [] []
         [(''.gs_rt'', [Tag [''P''] [] [] [(''a'', Tag [''P''] [(''id'', ''abc'')] [] [] [])] []]),
          (''.gs_rs'', [Tag [[CHR 0xC2, CHR 0xA0]] [] [] [] []]),
          (''.gs_nph+ a'', [Tag [''Cited by 7''] [(''href'', ''/c'')] [] [] []]),
          (''.gs_ai_name'',
             [Tag [''Ann''] [] [] [(''a'', Tag [''Ann''] [(''href'', ''/u'')] [] [] [])] []]),
          (''.gs_ai_cby'', [Tag [''Cited by 5''] [] [] [] []])]
         [] [];
       r = [(''title'', PStr ''P''), (''cited_by_count'', PStr ''Cited by 7''),
            (''cited_link'', PStr ''https://scholar.google.com/c'')];
       p = [(''name'', PStr ''Ann''), (''name_link'', PStr ''https://scholar.google.com/u''),
            (''cited_by_count'', PStr ''5'')]
   in scholar_result el = Inr r
      \<and> scholar_profile el = Inr p
      \<and> dict_get r ''title'' = Some (PStr ''P'')
      \<and> dict_get r ''title_link'' = None
      \<and> dict_get r ''id'' = None
      \<and> dict_get r ''snippet'' = None
      \<and> dict_get r ''cited_link'' = Some (PStr ''https://scholar.google.com/c'')
      \<and> dict_get r ''name'' = None
      \<and> dict_get p ''name_link'' = Some (PStr ''https://scholar.google.com/u'')
      \<and> dict_get p ''cited_by_count'' = Some (PStr ''5'')
      \<and> dict_get p ''email'' = None
      \<and> dict_get p ''title'' = None"
proof -
  let ?el = "Tag [] []
         [(''.gs_rt'', [Tag [''P''] [] [] [(''a'', Tag [''P''] [(''id'', ''abc'')] [] [] [])] []]),
          (''.gs_rs'', [Tag [[CHR 0xC2, CHR 0xA0]] [] [] [] []]),
          (''.gs_nph+ a'', [Tag [''Cited by 7''] [(''href'', ''/c'')] [] [] []]),
          (''.gs_ai_name'',
             [Tag [''Ann''] [] [] [(''a'', Tag [''Ann''] [(''href'', ''/u'')] [] [] [])] []]),
          (''.gs_ai_cby'', [Tag [''Cited by 5''] [] [] [] []])]
         [] []"
  let ?r = "[(''title'', PStr ''P''), (''cited_by_count'', PStr ''Cited by 7''),
            (''cited_link'', PStr ''https://scholar.google.com/c'')]"
  let ?p = "[(''name'', PStr ''Ann''), (''name_link'', PStr ''https://scholar.google.com/u''),
            (''cited_by_count'', PStr ''5'')]"
  have r: "scholar_result ?el = Inr ?r" by code_simp
  have p: "scholar_profile ?el = Inr ?p" by code_simp
  have v1: "kept (case select_one ?el ''.gs_rt'' of None \<Rightarrow> None
                | Some t \<Rightarrow> Some (PStr (get_text t))) = Some (PStr ''P'')"
    by code_simp
  have v2: "kept (case select_one ?el ''.gs_rt'' of None \<Rightarrow> None
                | Some t \<Rightarrow>
                    (case find_tag t ''a'' of None \<Rightarrow> None
                     | Some a \<Rightarrow>
                         (case map_of (tag_attrs a) ''href'' of None \<Rightarrow> None
                          | Some href \<Rightarrow> Some (PStr href)))) = None"
    by code_simp
  have v3: "kept (case select_one ?el ''.gs_rt'' of None \<Rightarrow> None
                | Some t \<Rightarrow>
                    (case find_tag t ''a'' of None \<Rightarrow> None
                     | Some a \<Rightarrow>
                         (case map_of (tag_attrs a) ''href'' of None \<Rightarrow> None
                          | Some href \<Rightarrow> Some (PStr (attr_get a ''id'' []))))) = None"
    by code_simp
  have v4: "kept (case select_one ?el ''.gs_rs'' of None \<Rightarrow> None
                | Some t \<Rightarrow> Some (PStr (get_text_strip t))) = None"
    by code_simp
  have v5: "kept (case select_one ?el ''.gs_nph+ a'' of None \<Rightarrow> None
                | Some t \<Rightarrow>
                    Some (PStr (''https://scholar.google.com'' @ attr_get t ''href'' [])))
              = Some (PStr ''https://scholar.google.com/c'')"
    by code_simp
  have v6: "kept (case select_one ?el ''.gs_ai_name'' of None \<Rightarrow> None
                | Some t \<Rightarrow>
                    (case find_tag t ''a'' of None \<Rightarrow> None
                     | Some a \<Rightarrow>
                         (case map_of (tag_attrs a) ''href'' of None \<Rightarrow> None
                          | Some href \<Rightarrow>
                              Some (PStr (''https://scholar.google.com'' @ href)))))
              = Some (PStr ''https://scholar.google.com/u'')"
    by code_simp
  have v7: "kept (case select_one ?el ''.gs_ai_cby'' of None \<Rightarrow> None
                | Some t \<Rightarrow> Some (PStr (last (split_ws (get_text t))))) = Some (PStr ''5'')"
    by code_simp
  have v8: "kept (case select_one ?el ''.gs_ai_eml'' of None \<Rightarrow> None
                | Some t \<Rightarrow> Some (PStr (get_text t))) = None"
    by code_simp
  have n: "''name'' \<notin> set (map fst search_rules)" "''title'' \<notin> set (map fst profile_rules)"
    by (simp_all add: search_rules_def profile_rules_def)
  note t = fields_decided_by_own_selector [of ?el ?p]
  have pick: "Q r1" if "\<exists>r. f = Inr r \<and> Q r" and "f = Inr r1"
    for f :: "exn + dict" and Q r1
    using that by auto
  note a = pick [OF conjunct1 [OF t] r, unfolded v1 v2 v3 v4 v5]
  note b = conjunct2 [OF t, THEN mp, OF p, unfolded v6 v7 v8]
  from a n(1) have a':
    "dict_get ?r ''title'' = Some (PStr ''P'')"
    "dict_get ?r ''title_link'' = None"
    "dict_get ?r ''id'' = None"
    "dict_get ?r ''snippet'' = None"
    "dict_get ?r ''cited_link'' = Some (PStr ''https://scholar.google.com/c'')"
    "dict_get ?r ''name'' = None"
    by blast+
  from b n(2) have b':
    "dict_get ?p ''name_link'' = Some (PStr ''https://scholar.google.com/u'')"
    "dict_get ?p ''cited_by_count'' = Some (PStr ''5'')"
    "dict_get ?p ''email'' = None"
    "dict_get ?p ''title'' = None"
    by blast+
  from r p a' b' show ?thesis
    unfolding Let_def by (intro conjI)
qed

text \<open>
  The claim as the specification words it fails. The link of the title element below has an
  \<^verbatim>\<open>id\<close> and no \<^verbatim>\<open>href\<close>. The missing attribute costs the result its
  \<^verbatim>\<open>title_link\<close>, and with it the \<^verbatim>\<open>id\<close>, which is there to be read but is
  assigned under the same guard.
\<close>

theorem missing_href_drops_id:
  "scholar_result
     (Tag [] [] [(''.gs_rt'',
        [Tag [''P''] [] [] [(''a'', Tag [''P''] [(''id'', ''abc'')] [] [] [])] []])] [] [])
     = Inr [(''title'', PStr ''P'')]
   \<and> attr_get (Tag [''P''] [(''id'', ''abc'')] [] [] []) ''id'' [] = ''abc''"
  by code_simp

text \<open>
  A field that raises takes more with it. The second block of the author page below has
  a name and a citation element without text; taking the last word of that text raises,
  no handler stands around the field or the block, and the Author Resolver returns the
  empty list: the name of this block and the whole first block are lost.
\<close>

lemma empty_citation_text_loses_candidates:
  "scholar_profile (Tag [] [] [(''.gs_ai_name'', [Tag [''Bo Chen''] [] [] [] []])] [] [])
     = Inr [(''name'', PStr ''Bo Chen'')]
   \<and> profile_name
         (Tag [] [] [(''.gs_ai_name'', [Tag [''Ann Lee''] [] [] [] []]),
                     (''.gs_ai_cby'', [Tag [] [] [] [] []])] [] []) []
     = [(''name'', PStr ''Ann Lee'')]
   \<and> scholar_profile
         (Tag [] [] [(''.gs_ai_name'', [Tag [''Ann Lee''] [] [] [] []]),
                     (''.gs_ai_cby'', [Tag [] [] [] [] []])] [] [])
     = Inl IndexError
   \<and> fst (get_scholar_profiles
         (\<lambda>h url. Inr (Tag [] []
            [(''.gsc_1usr'',
              [Tag [] [] [(''.gs_ai_name'', [Tag [''Bo Chen''] [] [] [] []])] [] [],
               Tag [] [] [(''.gs_ai_name'', [Tag [''Ann Lee''] [] [] [] []]),
                          (''.gs_ai_cby'', [Tag [] [] [] [] []])] [] []])] [] []))
         [] ''Lee'') = []"
  by code_simp

end
